theory Spec2Isabelle
  imports Main
begin

section \<open>The publication scheduler of the kanban application\<close>

text \<open>
  This theory embeds \<open>schedulePublication\<close> (the server action of the kanban /
  content-plan application) together with the pieces of the Prisma schema and of the
  JavaScript \<open>Date\<close> object it relies on, and proves the properties the design document
  states about it.

  Conventions of the model.
  \<^item> A \<open>Date\<close> is its time value: an integer number of milliseconds since the epoch.
    The local time zone is a fixed offset \<open>tz\<close> (milliseconds to add to the time value to
    obtain local civil time); daylight-saving transitions are not modelled.
  \<^item> The database is reachable: the health-check fallback of
    \<open>safeDatabaseOperation\<close> and connection failures of Prisma calls are not modelled.
  \<^item> The Task table is a list of rows; \<open>findUnique\<close> and \<open>findFirst\<close> return the
    first matching row, \<open>update\<close> rewrites the first row with the given id.
  \<^item> The field \<open>taskUpdates\<close> of the store is a log of the \<open>db.task.update\<close> calls
    performed so far; it exists only to count writes.
\<close>

subsection \<open>Dates\<close>

type_synonym instant = int

definition msPerHour :: int where
  "msPerHour = 3600000"

definition msPerDay :: int where
  "msPerDay = 86400000"

text \<open>Index of the local calendar day that holds the instant (day 0 is 1 January 1970).\<close>

definition localDay :: "int \<Rightarrow> instant \<Rightarrow> int" where
  "localDay tz t = (t + tz) div msPerDay"

text \<open>\<open>Date.prototype.getDay\<close>: 0 is Sunday, 6 is Saturday; day 0 was a Thursday.\<close>

definition getDay :: "int \<Rightarrow> instant \<Rightarrow> int" where
  "getDay tz t = (localDay tz t + 4) mod 7"

text \<open>\<open>d.setHours(hour, 0, 0, 0)\<close>: same local day, the given hour, zero minutes,
  seconds and milliseconds.\<close>

definition setHours :: "int \<Rightarrow> int \<Rightarrow> instant \<Rightarrow> instant" where
  "setHours tz hour t = localDay tz t * msPerDay + hour * msPerHour - tz"

text \<open>\<open>date = new Date(today); date.setDate(today.getDate() + dayOffset)\<close>: the same
  local time of day, \<open>dayOffset\<close> calendar days later (an overflowing day of the month
  rolls over into the following months).\<close>

definition setDate_plus :: "int \<Rightarrow> instant \<Rightarrow> instant" where
  "setDate_plus dayOffset today = today + dayOffset * msPerDay"

subsection \<open>The store\<close>

text \<open>The columns of \<open>model Task\<close> in the Prisma schema (relations left out).\<close>

record task =
  id_task :: string
  title :: string
  description :: "string option"
  assigneeId :: "string option"
  columnId :: "string option"
  createdAt :: instant
  updatedAt :: instant
  publishAt :: "instant option"
  publishTelegram :: bool
  publishVkOk :: bool
  publishWebsite :: bool
  priority :: string
  source :: "string option"
  sourceUser :: "string option"

text \<open>The columns of \<open>model User\<close> that \<open>createUserIfNotExists\<close> writes.\<close>

record user =
  id_user :: string
  role :: string

text \<open>The \<open>data\<close> argument of \<open>db.task.update\<close>: \<open>None\<close> for a field that is not
  mentioned, \<open>Some v\<close> for a field set to \<open>v\<close> (where \<open>v\<close> may be null).\<close>

record task_data =
  data_publishAt :: "instant option option"
  data_columnId :: "string option option"

record db =
  users :: "user list"
  tasks :: "task list"
  taskUpdates :: "(string \<times> task_data) list"

text \<open>What the action reads from outside the store: the authenticated user id
  (\<open>None\<close> when \<open>getAuth({required: true})\<close> throws), the value of \<open>new Date()\<close>,
  the local time-zone offset, and the instant Prisma stores in an \<open>@updatedAt\<close>
  column when it writes a row.\<close>

record env =
  auth :: "string option"
  now :: instant
  tz :: int
  writeTime :: instant

datatype error =
  UserUnavailable
  | NotFound
  | NoAvailableSlot
  | RecordToUpdateNotFound

text \<open>\<open>db.task.findUnique({ where: { id } })\<close>.\<close>

definition findUnique :: "string \<Rightarrow> task list \<Rightarrow> task option" where
  "findUnique k ts = find (\<lambda>t. id_task t = k) ts"

text \<open>\<open>db.task.findFirst({ where: { publishAt: scheduleDate, columnId: null } })\<close>.\<close>

definition findFirst :: "instant \<Rightarrow> task list \<Rightarrow> task option" where
  "findFirst scheduleDate ts =
     find (\<lambda>t. publishAt t = Some scheduleDate \<and> columnId t = None) ts"

definition apply_data :: "task_data \<Rightarrow> instant \<Rightarrow> task \<Rightarrow> task" where
  "apply_data d w t =
     t\<lparr> publishAt := (case data_publishAt d of None \<Rightarrow> publishAt t | Some v \<Rightarrow> v),
        columnId := (case data_columnId d of None \<Rightarrow> columnId t | Some v \<Rightarrow> v),
        updatedAt := w \<rparr>"

fun replace_row :: "string \<Rightarrow> task \<Rightarrow> task list \<Rightarrow> task list" where
  "replace_row k t' [] = []"
| "replace_row k t' (t # ts) =
     (if id_task t = k then t' # ts else t # replace_row k t' ts)"

text \<open>\<open>db.task.update({ where: { id }, data })\<close>: the updated row and the new store,
  or \<open>None\<close> when no row has the id (Prisma throws).\<close>

definition update_task :: "string \<Rightarrow> task_data \<Rightarrow> env \<Rightarrow> db \<Rightarrow> (task \<times> db) option" where
  "update_task k d e s =
     (case findUnique k (tasks s) of
        None \<Rightarrow> None
      | Some t \<Rightarrow>
          (let t' = apply_data d (writeTime e) t
           in Some (t', s\<lparr> tasks := replace_row k t' (tasks s),
                          taskUpdates := taskUpdates s @ [(k, d)] \<rparr>)))"

subsection \<open>The action\<close>

text \<open>\<open>createUserIfNotExists()\<close>: throws when there is no authenticated user,
  otherwise makes sure the user has a row (role \<open>EMPLOYEE\<close> by default).\<close>

definition createUserIfNotExists :: "env \<Rightarrow> db \<Rightarrow> error + db" where
  "createUserIfNotExists e s =
     (case auth e of
        None \<Rightarrow> Inl UserUnavailable
      | Some uid \<Rightarrow>
          (case find (\<lambda>u. id_user u = uid) (users s) of
             Some u \<Rightarrow> Inr s
           | None \<Rightarrow> Inr (s\<lparr> users := users s @ [\<lparr> id_user = uid, role = ''EMPLOYEE'' \<rparr>] \<rparr>)))"

definition timeSlots :: "int list" where
  "timeSlots = [9, 13, 15, 17]"

text \<open>The inner loop \<open>for (const hour of timeSlots)\<close>: the first slot of the day
  \<open>date\<close> for which \<open>findFirst\<close> finds no task.\<close>

fun trySlots :: "int \<Rightarrow> task list \<Rightarrow> instant \<Rightarrow> int list \<Rightarrow> instant option" where
  "trySlots z ts date [] = None"
| "trySlots z ts date (hour # hours) =
     (let scheduleDate = setHours z hour date
      in case findFirst scheduleDate ts of
           None \<Rightarrow> Some scheduleDate
         | Some existingTask \<Rightarrow> trySlots z ts date hours)"

text \<open>The outer loop \<open>for (let dayOffset = 0; dayOffset < 30; dayOffset++)\<close>. The
  body of the source returns from the action at the first free slot; here the loops
  return that slot and the update follows in \<open>schedulePublication\<close>.\<close>

function scanDays :: "int \<Rightarrow> task list \<Rightarrow> instant \<Rightarrow> int \<Rightarrow> instant option" where
  "scanDays z ts today dayOffset =
     (if dayOffset < 30 then
        (let date = setDate_plus dayOffset today
         in if getDay z date = 0 \<or> getDay z date = 6 then scanDays z ts today (dayOffset + 1)
            else (case trySlots z ts date timeSlots of
                    Some scheduleDate \<Rightarrow> Some scheduleDate
                  | None \<Rightarrow> scanDays z ts today (dayOffset + 1)))
      else None)"
  by pat_completeness auto
termination
  by (relation "measure (\<lambda>(z, ts, today, dayOffset). nat (30 - dayOffset))") auto

declare scanDays.simps [simp del]

text \<open>\<open>input.removeFromKanban\<close> is an optional boolean; the source tests its
  truthiness.\<close>

definition truthy :: "bool option \<Rightarrow> bool" where
  "truthy b = (b = Some True)"

definition schedulePublication ::
  "env \<Rightarrow> db \<Rightarrow> string \<Rightarrow> bool option \<Rightarrow> (error + task) \<times> db" where
  "schedulePublication e s taskId removeFromKanban =
     (case createUserIfNotExists e s of
        Inl err \<Rightarrow> (Inl err, s)
      | Inr s1 \<Rightarrow>
          (case findUnique taskId (tasks s1) of
             None \<Rightarrow> (Inl NotFound, s1)
           | Some task \<Rightarrow>
               (case publishAt task of
                  Some p \<Rightarrow>
                    (if truthy removeFromKanban then
                       (case update_task (id_task task)
                               \<lparr> data_publishAt = None, data_columnId = Some None \<rparr> e s1 of
                          None \<Rightarrow> (Inl RecordToUpdateNotFound, s1)
                        | Some (updated, s2) \<Rightarrow> (Inr task, s2))
                     else (Inr task, s1))
                | None \<Rightarrow>
                    (let today = setHours (tz e) 9 (now e)
                     in case scanDays (tz e) (tasks s1) today 0 of
                          None \<Rightarrow> (Inl NoAvailableSlot, s1)
                        | Some scheduleDate \<Rightarrow>
                            (case update_task (id_task task)
                                    \<lparr> data_publishAt = Some (Some scheduleDate),
                                      data_columnId =
                                        Some (if truthy removeFromKanban then None
                                              else columnId task) \<rparr> e s1 of
                               None \<Rightarrow> (Inl RecordToUpdateNotFound, s1)
                             | Some (updatedTask, s2) \<Rightarrow> (Inr updatedTask, s2))))))"

subsection \<open>The slot search as the design document words it\<close>

text \<open>A slot is free iff no task has exactly that \<open>publishAt\<close> and a null column.\<close>

definition slotFree :: "task list \<Rightarrow> instant \<Rightarrow> bool" where
  "slotFree ts d = (\<not> (\<exists>t \<in> set ts. publishAt t = Some d \<and> columnId t = None))"

text \<open>The slots of one day in the listed order; none on a Saturday or a Sunday.\<close>

definition daySlots :: "int \<Rightarrow> instant \<Rightarrow> instant list" where
  "daySlots z date =
     (if getDay z date = 0 \<or> getDay z date = 6 then []
      else map (\<lambda>hour. setHours z hour date) [9, 13, 15, 17])"

text \<open>The traversal: 30 calendar days starting from today at 00:00 local time, days
  outer, slots inner.\<close>

definition slotTraversal :: "int \<Rightarrow> instant \<Rightarrow> instant list" where
  "slotTraversal z n =
     concat (map (\<lambda>dayOffset. daySlots z (setDate_plus dayOffset (setHours z 0 n))) [0..29])"

subsection \<open>Frame of an update\<close>

text \<open>A row with the three columns an update of the action may change blanked out.\<close>

definition otherFields :: "task \<Rightarrow> task" where
  "otherFields t = t\<lparr> publishAt := None, columnId := None, updatedAt := 0 \<rparr>"

subsection \<open>Example data\<close>

text \<open>An environment in the time zone UTC+3 whose clock reads Monday 1 January 2024,
  21:00 local time, a task row with default columns, and a store holding given rows.\<close>

definition example_env :: env where
  "example_env = \<lparr> auth = Some ''u1'', now = 1704132000000, tz = 10800000,
                     writeTime = 1704132000500 \<rparr>"

definition example_task :: "string \<Rightarrow> string option \<Rightarrow> instant option \<Rightarrow> task" where
  "example_task k c p =
     \<lparr> id_task = k, title = ''post'', description = Some [], assigneeId = None,
       columnId = c, createdAt = 1704000000000, updatedAt = 1704000000000, publishAt = p,
       publishTelegram = True, publishVkOk = True, publishWebsite = True,
       priority = ''green'', source = None, sourceUser = None \<rparr>"

definition example_store :: "task list \<Rightarrow> db" where
  "example_store ts = \<lparr> users = [], tasks = ts, taskUpdates = [] \<rparr>"

text \<open>A store in which every slot of the horizon of \<open>example_env\<close> is taken by a
  content-plan task of its own, followed by one unscheduled task \<open>a\<close>.\<close>

definition example_full_store :: db where
  "example_full_store =
     example_store
       (map (\<lambda>(i, d). example_task (replicate (Suc i) CHR ''x'') None (Some d))
            (enumerate 0 (slotTraversal (tz example_env) (now example_env)))
        @ [example_task ''a'' None None])"

section \<open>Properties\<close>

subsection \<open>Dates\<close>

lemma localDay_setHours:
  assumes "0 \<le> h" "h < 24"
  shows "localDay z (setHours z h t) = localDay z t"
proof -
  have "0 \<le> h * 3600000" "h * 3600000 < 86400000" using assms by simp_all
  then show ?thesis
    unfolding localDay_def setHours_def msPerDay_def msPerHour_def
    by (simp add: div_pos_pos_trivial)
qed

lemma localDay_setDate_plus: "localDay z (setDate_plus k t) = localDay z t + k"
  unfolding localDay_def setDate_plus_def msPerDay_def
  by (simp add: algebra_simps)

lemma setHours_localDay_cong: "localDay z a = localDay z b \<Longrightarrow> setHours z h a = setHours z h b"
  by (simp add: setHours_def)

lemma getDay_localDay_cong: "localDay z a = localDay z b \<Longrightarrow> getDay z a = getDay z b"
  by (simp add: getDay_def)

lemma getDay_setHours: "0 \<le> h \<Longrightarrow> h < 24 \<Longrightarrow> getDay z (setHours z h t) = getDay z t"
  by (simp add: getDay_def localDay_setHours)

lemma findFirst_None_iff: "(findFirst d ts = None) = slotFree ts d"
  by (auto simp: findFirst_def slotFree_def find_None_iff)

lemma trySlots_find:
  "trySlots z ts date hs = find (slotFree ts) (map (\<lambda>hour. setHours z hour date) hs)"
proof (induction hs)
  case Nil
  show ?case by simp
next
  case (Cons h hs)
  show ?case
  proof (cases "findFirst (setHours z h date) ts")
    case None
    then show ?thesis using findFirst_None_iff[of "setHours z h date" ts] by simp
  next
    case (Some x)
    then show ?thesis using Cons findFirst_None_iff[of "setHours z h date" ts] by simp
  qed
qed

lemma find_app: "find P (xs @ ys) = (case find P xs of None \<Rightarrow> find P ys | Some x \<Rightarrow> Some x)"
  by (induction xs) simp_all

lemma trySlots_daySlots:
  "getDay z date \<noteq> 0 \<Longrightarrow> getDay z date \<noteq> 6 \<Longrightarrow>
   trySlots z ts date timeSlots = find (slotFree ts) (daySlots z date)"
  by (simp only: trySlots_find timeSlots_def daySlots_def if_False simp_thms)

lemma scanDays_find:
  "scanDays z ts today k =
     find (slotFree ts) (concat (map (\<lambda>j. daySlots z (setDate_plus j today)) [k..29]))"
proof (induction z ts today k rule: scanDays.induct)
  case (1 z ts today k)
  show ?case
  proof (cases "k < 30")
    case False
    then show ?thesis by (simp add: scanDays.simps[of z ts today k])
  next
    case lt: True
    then have up: "[k..29] = k # [k + 1..29]" by (simp add: upto.simps[of k 29])
    let ?date = "setDate_plus k today"
    show ?thesis
    proof (cases "getDay z ?date = 0 \<or> getDay z ?date = 6")
      case True
      then have "scanDays z ts today k = scanDays z ts today (k + 1)"
        using lt by (simp add: scanDays.simps[of z ts today k])
      also have "\<dots> = find (slotFree ts) (concat (map (\<lambda>j. daySlots z (setDate_plus j today)) [k + 1..29]))"
        using "1.IH"(1)[OF lt refl True] .
      finally show ?thesis using True by (simp add: up daySlots_def)
    next
      case False
      then have wd: "getDay z ?date \<noteq> 0" "getDay z ?date \<noteq> 6" by simp_all
      show ?thesis
      proof (cases "trySlots z ts ?date timeSlots")
        case None
        then have "scanDays z ts today k = scanDays z ts today (k + 1)"
          using lt False by (simp add: scanDays.simps[of z ts today k])
        also have "\<dots> = find (slotFree ts) (concat (map (\<lambda>j. daySlots z (setDate_plus j today)) [k + 1..29]))"
          using "1.IH"(2)[OF lt refl False None] .
        finally show ?thesis
          using None trySlots_daySlots[OF wd, of ts] by (simp add: up find_app)
      next
        case (Some d)
        then have "scanDays z ts today k = Some d"
          using lt False by (simp add: scanDays.simps[of z ts today k])
        then show ?thesis
          using Some trySlots_daySlots[OF wd, of ts] by (simp add: up find_app)
      qed
    qed
  qed
qed

lemma daySlots_today_cong:
  "localDay z a = localDay z b \<Longrightarrow> daySlots z a = daySlots z b"
  unfolding daySlots_def
  using getDay_localDay_cong[of z a b] setHours_localDay_cong[of z a b] by simp

lemma scanDays_traversal:
  "scanDays z ts (setHours z 9 n) 0 = find (slotFree ts) (slotTraversal z n)"
proof -
  have "\<And>j. daySlots z (setDate_plus j (setHours z 9 n)) = daySlots z (setDate_plus j (setHours z 0 n))"
    by (rule daySlots_today_cong) (simp add: localDay_setDate_plus localDay_setHours)
  then show ?thesis
    by (simp only: scanDays_find slotTraversal_def)
qed

subsection \<open>The store\<close>

lemma findUnique_SomeD: "findUnique k ts = Some t \<Longrightarrow> id_task t = k \<and> t \<in> set ts"
  by (auto simp: findUnique_def find_Some_iff)

lemma id_task_apply_data: "id_task (apply_data d w t) = id_task t"
  by (simp add: apply_data_def)

lemma otherFields_apply_data: "otherFields (apply_data d w t) = otherFields t"
  by (simp add: apply_data_def otherFields_def)

lemma findUnique_replace_same:
  "findUnique k ts = Some t \<Longrightarrow> id_task t' = k \<Longrightarrow> findUnique k (replace_row k t' ts) = Some t'"
  by (induction ts) (auto simp: findUnique_def)

lemma findUnique_replace_other:
  "j \<noteq> k \<Longrightarrow> id_task t' = k \<Longrightarrow> findUnique j (replace_row k t' ts) = findUnique j ts"
  by (induction ts) (auto simp: findUnique_def)

lemma filter_replace_row:
  "id_task t' = k \<Longrightarrow> filter (\<lambda>x. id_task x \<noteq> k) (replace_row k t' ts) = filter (\<lambda>x. id_task x \<noteq> k) ts"
  by (induction ts) auto

lemma map_otherFields_replace_row:
  "findUnique k ts = Some t \<Longrightarrow> otherFields t' = otherFields t \<Longrightarrow>
   map otherFields (replace_row k t' ts) = map otherFields ts"
  by (induction ts) (auto simp: findUnique_def)

lemma update_task_Some:
  "findUnique k (tasks s) = Some t \<Longrightarrow>
   update_task k d e s =
     Some (apply_data d (writeTime e) t,
           s\<lparr> tasks := replace_row k (apply_data d (writeTime e) t) (tasks s),
              taskUpdates := taskUpdates s @ [(k, d)] \<rparr>)"
  by (simp add: update_task_def Let_def)

subsection \<open>The paths of the action\<close>

lemma createUser_Inl: "createUserIfNotExists e s = Inl err \<Longrightarrow> auth e = None \<and> err = UserUnavailable"
  by (auto simp: createUserIfNotExists_def split: option.splits)

lemma createUser_Inr:
  "createUserIfNotExists e s = Inr s1 \<Longrightarrow>
   auth e \<noteq> None \<and> tasks s1 = tasks s \<and> taskUpdates s1 = taskUpdates s"
  by (auto simp: createUserIfNotExists_def split: option.splits)

lemma createUser_auth:
  "auth e = Some u \<Longrightarrow> \<exists>s1. createUserIfNotExists e s = Inr s1"
  by (auto simp: createUserIfNotExists_def split: option.splits)

lemma path_unauthenticated:
  "auth e = None \<Longrightarrow> schedulePublication e s k r = (Inl UserUnavailable, s)"
  by (simp add: schedulePublication_def createUserIfNotExists_def)

lemma path_missing:
  "createUserIfNotExists e s = Inr s1 \<Longrightarrow> findUnique k (tasks s) = None \<Longrightarrow>
   schedulePublication e s k r = (Inl NotFound, s1)"
  using createUser_Inr[of e s s1] by (simp add: schedulePublication_def)

lemma path_explicit_keep:
  "createUserIfNotExists e s = Inr s1 \<Longrightarrow> findUnique k (tasks s) = Some t \<Longrightarrow>
   publishAt t = Some p \<Longrightarrow> \<not> truthy r \<Longrightarrow>
   schedulePublication e s k r = (Inr t, s1)"
  using createUser_Inr[of e s s1] by (simp add: schedulePublication_def)

lemma path_explicit_remove:
  assumes "createUserIfNotExists e s = Inr s1" "findUnique k (tasks s) = Some t"
    "publishAt t = Some p" "truthy r"
  shows "schedulePublication e s k r =
      (Inr t, s1\<lparr> tasks := replace_row k (apply_data \<lparr> data_publishAt = None, data_columnId = Some None \<rparr> (writeTime e) t) (tasks s),
                 taskUpdates := taskUpdates s @ [(k, \<lparr> data_publishAt = None, data_columnId = Some None \<rparr>)] \<rparr>)"
proof -
  have s1: "tasks s1 = tasks s" "taskUpdates s1 = taskUpdates s"
    using createUser_Inr[OF assms(1)] by simp_all
  have k: "id_task t = k" using findUnique_SomeD[OF assms(2)] by simp
  have f: "findUnique k (tasks s1) = Some t" using assms(2) s1 by simp
  show ?thesis
    using assms(1,3,4) f
    by (simp add: schedulePublication_def k update_task_Some[OF f] s1)
qed

lemma path_exhausted:
  assumes "createUserIfNotExists e s = Inr s1" "findUnique k (tasks s) = Some t"
    "publishAt t = None" "find (slotFree (tasks s)) (slotTraversal (tz e) (now e)) = None"
  shows "schedulePublication e s k r = (Inl NoAvailableSlot, s1)"
proof -
  have s1: "tasks s1 = tasks s" using createUser_Inr[OF assms(1)] by simp
  show ?thesis
    using assms by (simp add: schedulePublication_def s1 scanDays_traversal Let_def)
qed

lemma path_slot:
  assumes "createUserIfNotExists e s = Inr s1" "findUnique k (tasks s) = Some t"
    "publishAt t = None" "find (slotFree (tasks s)) (slotTraversal (tz e) (now e)) = Some d"
    "dat = \<lparr> data_publishAt = Some (Some d),
             data_columnId = Some (if truthy r then None else columnId t) \<rparr>"
  shows "schedulePublication e s k r =
      (Inr (apply_data dat (writeTime e) t),
       s1\<lparr> tasks := replace_row k (apply_data dat (writeTime e) t) (tasks s),
           taskUpdates := taskUpdates s @ [(k, dat)] \<rparr>)"
proof -
  have s1: "tasks s1 = tasks s" "taskUpdates s1 = taskUpdates s"
    using createUser_Inr[OF assms(1)] by simp_all
  have k: "id_task t = k" using findUnique_SomeD[OF assms(2)] by simp
  have f: "findUnique k (tasks s1) = Some t" using assms(2) s1 by simp
  show ?thesis
    using assms(1,3,4) f
    by (simp add: schedulePublication_def k update_task_Some[OF f] s1 scanDays_traversal assms(5) Let_def)
qed

subsection \<open>Members of the traversal and successful slot searches\<close>

lemma find_SomeD: "find P xs = Some x \<Longrightarrow> x \<in> set xs \<and> P x"
  by (auto simp: find_Some_iff)

lemma timeOfDay_setHours:
  assumes "0 \<le> h" "h < 24"
  shows "(setHours z h t + z) mod msPerDay = h * msPerHour"
proof -
  have "0 \<le> h * 3600000" "h * 3600000 < 86400000" using assms by simp_all
  then show ?thesis
    unfolding setHours_def msPerDay_def msPerHour_def by simp
qed

lemma daySlots_member:
  assumes "d \<in> set (daySlots z date)"
  shows "getDay z d \<noteq> 0 \<and> getDay z d \<noteq> 6 \<and>
         (d + z) mod msPerDay \<in> set (map (\<lambda>hour. hour * msPerHour) timeSlots)"
proof -
  from assms have wd: "getDay z date \<noteq> 0" "getDay z date \<noteq> 6"
    by (auto simp: daySlots_def split: if_splits)
  from assms wd obtain h where h: "h \<in> {9, 13, 15, 17}" "d = setHours z h date"
    by (auto simp: daySlots_def)
  then have b: "0 \<le> h" "h < 24" by auto
  have "getDay z d = getDay z date" using h getDay_setHours[OF b] by simp
  moreover have "(d + z) mod msPerDay = h * msPerHour"
    using h timeOfDay_setHours[OF b] by simp
  ultimately show ?thesis using wd h(1) by (auto simp: timeSlots_def)
qed

lemma slotTraversal_member:
  assumes "d \<in> set (slotTraversal z n)"
  shows "getDay z d \<noteq> 0 \<and> getDay z d \<noteq> 6 \<and>
         (d + z) mod msPerDay \<in> set (map (\<lambda>hour. hour * msPerHour) timeSlots)"
proof -
  from assms obtain j where "d \<in> set (daySlots z (setDate_plus j (setHours z 0 n)))"
    by (auto simp: slotTraversal_def)
  then show ?thesis by (rule daySlots_member)
qed

lemma slot_success_cases:
  assumes "findUnique k (tasks s) = Some t" "publishAt t = None"
    "schedulePublication e s k r = (Inr t', s')"
  obtains s1 d dat where
    "createUserIfNotExists e s = Inr s1"
    "find (slotFree (tasks s)) (slotTraversal (tz e) (now e)) = Some d"
    "dat = \<lparr> data_publishAt = Some (Some d),
             data_columnId = Some (if truthy r then None else columnId t) \<rparr>"
    "t' = apply_data dat (writeTime e) t"
    "s' = s1\<lparr> tasks := replace_row k t' (tasks s), taskUpdates := taskUpdates s @ [(k, dat)] \<rparr>"
proof (cases "createUserIfNotExists e s")
  case (Inl err)
  then have "auth e = None" using createUser_Inl by blast
  then show ?thesis using assms(3) path_unauthenticated[of e s k r] by simp
next
  case (Inr s1)
  show ?thesis
  proof (cases "find (slotFree (tasks s)) (slotTraversal (tz e) (now e))")
    case None
    then show ?thesis using assms(3) path_exhausted[OF Inr assms(1,2) None, of r] by simp
  next
    case (Some d)
    define dat where "dat = \<lparr> data_publishAt = Some (Some d),
             data_columnId = Some (if truthy r then None else columnId t) \<rparr>"
    note eq = path_slot[OF Inr assms(1,2) Some dat_def]
    have t': "t' = apply_data dat (writeTime e) t"
      using arg_cong[OF assms(3), of fst] arg_cong[OF eq, of fst] by simp
    have s': "s' = s1\<lparr> tasks := replace_row k (apply_data dat (writeTime e) t) (tasks s),
           taskUpdates := taskUpdates s @ [(k, dat)] \<rparr>"
      using arg_cong[OF assms(3), of snd] arg_cong[OF eq, of snd] by simp
    show ?thesis
      by (rule that[OF Inr Some dat_def t']) (simp only: s' t'[symmetric])
  qed
qed

lemma publishAt_apply_data_Some:
  "data_publishAt dat = Some v \<Longrightarrow> publishAt (apply_data dat w t) = v"
  by (simp add: apply_data_def)

lemma publishAt_apply_data_None:
  "data_publishAt dat = None \<Longrightarrow> publishAt (apply_data dat w t) = publishAt t"
  by (simp add: apply_data_def)

lemma columnId_apply_data_Some:
  "data_columnId dat = Some v \<Longrightarrow> columnId (apply_data dat w t) = v"
  by (simp add: apply_data_def)

lemma explicit_cases [consumes 2, case_names unauthenticated keep remove]:
  assumes "findUnique k (tasks s) = Some t" "publishAt t = Some p"
  obtains (unauthenticated) "auth e = None"
      "schedulePublication e s k r = (Inl UserUnavailable, s)"
  | (keep) s1 where "createUserIfNotExists e s = Inr s1" "\<not> truthy r"
      "schedulePublication e s k r = (Inr t, s1)"
  | (remove) s1 where "createUserIfNotExists e s = Inr s1" "truthy r"
      "schedulePublication e s k r =
        (Inr t, s1\<lparr> tasks := replace_row k (apply_data \<lparr> data_publishAt = None, data_columnId = Some None \<rparr> (writeTime e) t) (tasks s),
                   taskUpdates := taskUpdates s @ [(k, \<lparr> data_publishAt = None, data_columnId = Some None \<rparr>)] \<rparr>)"
proof (cases "createUserIfNotExists e s")
  case (Inl err)
  then have a: "auth e = None" using createUser_Inl by blast
  show ?thesis using unauthenticated[OF a path_unauthenticated[OF a]] .
next
  case (Inr s1)
  show ?thesis
  proof (cases "truthy r")
    case True
    show ?thesis using remove[OF Inr True path_explicit_remove[OF Inr assms True]] .
  next
    case False
    show ?thesis using keep[OF Inr False path_explicit_keep[OF Inr assms False]] .
  qed
qed

lemma slotFree_filter_eq: "slotFree (filter (\<lambda>x. columnId x = None) ts) d = slotFree ts d"
  by (auto simp: slotFree_def)

lemma find_slotFree_filter:
  "find (slotFree (filter (\<lambda>x. columnId x = None) ts)) ds = find (slotFree ts) ds"
  by (rule find_cong) (simp_all add: slotFree_filter_eq)

lemma setHours_before_now:
  "(setHours z h n < n) = (h * msPerHour < (n + z) mod msPerDay)"
proof -
  have "n + z = (n + z) div msPerDay * msPerDay + (n + z) mod msPerDay"
    by simp
  then show ?thesis
    unfolding setHours_def localDay_def by linarith
qed

lemma slotTraversal_head:
  assumes "getDay z n \<noteq> 0" "getDay z n \<noteq> 6"
  shows "\<exists>rest. slotTraversal z n =
           setHours z 9 n # setHours z 13 n # setHours z 15 n # setHours z 17 n # rest"
proof -
  let ?d0 = "setDate_plus 0 (setHours z 0 n)"
  have ld: "localDay z ?d0 = localDay z n"
    by (simp add: localDay_setDate_plus localDay_setHours)
  have wd: "getDay z ?d0 = getDay z n" by (rule getDay_localDay_cong[OF ld])
  have sh: "\<And>h. setHours z h ?d0 = setHours z h n" by (rule setHours_localDay_cong[OF ld])
  have up: "[0..29] = (0::int) # [1..29]" by (simp add: upto.simps[of 0 29])
  have "daySlots z ?d0 = [setHours z 9 n, setHours z 13 n, setHours z 15 n, setHours z 17 n]"
    using assms by (simp add: daySlots_def wd sh)
  then show ?thesis
    unfolding slotTraversal_def up by simp
qed

lemma first_slot_today:
  assumes "getDay z n \<noteq> 0" "getDay z n \<noteq> 6" "slotFree ts (setHours z 9 n)"
  shows "find (slotFree ts) (slotTraversal z n) = Some (setHours z 9 n)"
proof -
  from slotTraversal_head[OF assms(1,2)] obtain rest where
    "slotTraversal z n =
       setHours z 9 n # setHours z 13 n # setHours z 15 n # setHours z 17 n # rest"
    by blast
  then show ?thesis using assms(3) by simp
qed

lemma find_None_all: "(find P xs = None) = (\<forall>x \<in> set xs. \<not> P x)"
  by (auto simp: find_None_iff)

lemma replace_row_frame:
  assumes "findUnique k ts = Some t"
  shows "map otherFields (replace_row k (apply_data d w t) ts) = map otherFields ts"
    and "filter (\<lambda>x. id_task x \<noteq> k) (replace_row k (apply_data d w t) ts) =
         filter (\<lambda>x. id_task x \<noteq> k) ts"
proof -
  show "map otherFields (replace_row k (apply_data d w t) ts) = map otherFields ts"
    by (rule map_otherFields_replace_row[OF assms otherFields_apply_data])
  have "id_task (apply_data d w t) = k"
    using findUnique_SomeD[OF assms] by (simp add: id_task_apply_data)
  then show "filter (\<lambda>x. id_task x \<noteq> k) (replace_row k (apply_data d w t) ts) =
         filter (\<lambda>x. id_task x \<noteq> k) ts"
    by (rule filter_replace_row)
qed

lemma updates_and_frame_aux:
  "(\<forall>err. fst (schedulePublication e s k r) = Inl err \<longrightarrow>
       taskUpdates (snd (schedulePublication e s k r)) = taskUpdates s \<and>
       tasks (snd (schedulePublication e s k r)) = tasks s) \<and>
   (\<forall>t'. fst (schedulePublication e s k r) = Inr t' \<longrightarrow>
       (\<exists>t. findUnique k (tasks s) = Some t \<and>
            (publishAt t \<noteq> None \<and> \<not> truthy r \<longrightarrow>
               taskUpdates (snd (schedulePublication e s k r)) = taskUpdates s \<and>
               tasks (snd (schedulePublication e s k r)) = tasks s) \<and>
            (publishAt t = None \<or> truthy r \<longrightarrow>
               (\<exists>dat. taskUpdates (snd (schedulePublication e s k r)) =
                        taskUpdates s @ [(k, dat)])))) \<and>
   map otherFields (tasks (snd (schedulePublication e s k r))) = map otherFields (tasks s) \<and>
   filter (\<lambda>x. id_task x \<noteq> k) (tasks (snd (schedulePublication e s k r))) =
     filter (\<lambda>x. id_task x \<noteq> k) (tasks s)"
proof (cases "createUserIfNotExists e s")
  case (Inl err)
  then have "auth e = None" using createUser_Inl by blast
  then show ?thesis by (simp add: path_unauthenticated)
next
  case (Inr s1)
  note fr = createUser_Inr[OF Inr]
  show ?thesis
  proof (cases "findUnique k (tasks s)")
    case None
    show ?thesis using fr by (simp add: path_missing[OF Inr None])
  next
    case f: (Some t)
    show ?thesis
    proof (cases "publishAt t")
      case (Some p)
      show ?thesis
      proof (cases "truthy r")
        case True
        show ?thesis
          using f Some True
          by (simp add: path_explicit_remove[OF Inr f Some True] replace_row_frame[OF f])
      next
        case False
        show ?thesis
          using f Some False fr
          by (simp add: path_explicit_keep[OF Inr f Some False])
      qed
    next
      case None
      show ?thesis
      proof (cases "find (slotFree (tasks s)) (slotTraversal (tz e) (now e))")
        case (Some d)
        show ?thesis
          using f None
          by (simp add: path_slot[OF Inr f None Some refl] replace_row_frame[OF f])
      next
        case nf: None
        show ?thesis
          using fr by (simp add: path_exhausted[OF Inr f None nf])
      qed
    qed
  qed
qed

lemma getDay_setDate_plus: "getDay z (setDate_plus j t) = (getDay z t + j) mod 7"
  unfolding getDay_def localDay_setDate_plus by presburger

lemma getDay_range: "0 \<le> getDay z t \<and> getDay z t < 7"
  by (simp add: getDay_def)

lemma slotTraversal_localDay_cong:
  assumes "localDay z n = localDay z n'"
  shows "slotTraversal z n = slotTraversal z n'"
proof -
  have "setHours z 0 n = setHours z 0 n'" by (rule setHours_localDay_cong[OF assms])
  then show ?thesis by (simp add: slotTraversal_def)
qed

lemma daySlots_business:
  "getDay z date \<noteq> 0 \<Longrightarrow> getDay z date \<noteq> 6 \<Longrightarrow>
   daySlots z date = [setHours z 9 date, setHours z 13 date, setHours z 15 date, setHours z 17 date]"
  by (simp add: daySlots_def)

lemma daySlots_weekend: "getDay z date = 0 \<or> getDay z date = 6 \<Longrightarrow> daySlots z date = []"
  by (simp add: daySlots_def)

text \<open>The traversal starts with the four slots of the first business day, which is
  today, tomorrow or the day after.\<close>

lemma slotTraversal_first_business_day:
  "\<exists>j rest. 0 \<le> j \<and> j \<le> 2 \<and>
      getDay z (setDate_plus j n) \<noteq> 0 \<and> getDay z (setDate_plus j n) \<noteq> 6 \<and>
      (\<forall>i. 0 \<le> i \<and> i < j \<longrightarrow> getDay z (setDate_plus i n) = 0 \<or> getDay z (setDate_plus i n) = 6) \<and>
      slotTraversal z n =
        setHours z 9 (setDate_plus j n) # setHours z 13 (setDate_plus j n) #
        setHours z 15 (setDate_plus j n) # setHours z 17 (setDate_plus j n) # rest"
proof -
  let ?day = "\<lambda>j. setDate_plus j (setHours z 0 n)"
  have ld: "\<And>j. localDay z (?day j) = localDay z (setDate_plus j n)"
    by (simp add: localDay_setDate_plus localDay_setHours)
  have wd: "\<And>j. getDay z (?day j) = getDay z (setDate_plus j n)"
    by (rule getDay_localDay_cong[OF ld])
  have sh: "\<And>h j. setHours z h (?day j) = setHours z h (setDate_plus j n)"
    by (rule setHours_localDay_cong[OF ld])
  have up: "[0..29] = (0::int) # 1 # 2 # [3..29]"
    by (simp add: upto.simps[of 0 29] upto.simps[of 1 29] upto.simps[of 2 29])
  have tr: "slotTraversal z n = daySlots z (?day 0) @ daySlots z (?day 1) @ daySlots z (?day 2) @
      concat (map (\<lambda>dayOffset. daySlots z (?day dayOffset)) [3..29])"
    unfolding slotTraversal_def up by simp
  have g: "\<And>j. getDay z (setDate_plus j n) = (getDay z n + j) mod 7"
    by (rule getDay_setDate_plus)
  have rng: "0 \<le> getDay z n" "getDay z n < 7" using getDay_range[of z n] by simp_all
  consider (sun) "getDay z n = 0" | (sat) "getDay z n = 6" | (business) "getDay z n \<noteq> 0" "getDay z n \<noteq> 6"
    by blast
  then show ?thesis
  proof cases
    case business
    then have b0: "getDay z (setDate_plus 0 n) \<noteq> 0" "getDay z (setDate_plus 0 n) \<noteq> 6"
      using rng by (simp_all add: g)
    have "daySlots z (?day 0) = [setHours z 9 (setDate_plus 0 n), setHours z 13 (setDate_plus 0 n),
        setHours z 15 (setDate_plus 0 n), setHours z 17 (setDate_plus 0 n)]"
      using b0 by (simp add: daySlots_business wd sh)
    then have "\<exists>rest. slotTraversal z n =
        setHours z 9 (setDate_plus 0 n) # setHours z 13 (setDate_plus 0 n) #
        setHours z 15 (setDate_plus 0 n) # setHours z 17 (setDate_plus 0 n) # rest"
      by (simp add: tr)
    then show ?thesis using b0 by (intro exI[of _ 0]) auto
  next
    case sun
    have w0: "getDay z (setDate_plus 0 n) = 0" using sun by (simp add: g)
    have b1: "getDay z (setDate_plus 1 n) \<noteq> 0" "getDay z (setDate_plus 1 n) \<noteq> 6"
      using sun by (simp_all add: g)
    have "daySlots z (?day 0) = []" using w0 by (simp add: daySlots_weekend wd)
    moreover have "daySlots z (?day 1) = [setHours z 9 (setDate_plus 1 n), setHours z 13 (setDate_plus 1 n),
        setHours z 15 (setDate_plus 1 n), setHours z 17 (setDate_plus 1 n)]"
      using b1 by (simp add: daySlots_business wd sh)
    ultimately have "\<exists>rest. slotTraversal z n =
        setHours z 9 (setDate_plus 1 n) # setHours z 13 (setDate_plus 1 n) #
        setHours z 15 (setDate_plus 1 n) # setHours z 17 (setDate_plus 1 n) # rest"
      by (simp add: tr)
    moreover have "\<forall>i. 0 \<le> i \<and> i < (1::int) \<longrightarrow>
        getDay z (setDate_plus i n) = 0 \<or> getDay z (setDate_plus i n) = 6"
    proof (intro allI impI)
      fix i :: int assume "0 \<le> i \<and> i < 1"
      then have "i = 0" by simp
      then show "getDay z (setDate_plus i n) = 0 \<or> getDay z (setDate_plus i n) = 6"
        using w0 by simp
    qed
    ultimately show ?thesis using b1 by (intro exI[of _ 1]) auto
  next
    case sat
    have w0: "getDay z (setDate_plus 0 n) = 6" using sat by (simp add: g)
    have w1: "getDay z (setDate_plus 1 n) = 0" using sat by (simp add: g)
    have b2: "getDay z (setDate_plus 2 n) \<noteq> 0" "getDay z (setDate_plus 2 n) \<noteq> 6"
      using sat by (simp_all add: g)
    have "daySlots z (?day 0) = []" using w0 by (simp add: daySlots_weekend wd)
    moreover have "daySlots z (?day 1) = []" using w1 by (simp add: daySlots_weekend wd)
    moreover have "daySlots z (?day 2) = [setHours z 9 (setDate_plus 2 n), setHours z 13 (setDate_plus 2 n),
        setHours z 15 (setDate_plus 2 n), setHours z 17 (setDate_plus 2 n)]"
      using b2 by (simp add: daySlots_business wd sh)
    ultimately have "\<exists>rest. slotTraversal z n =
        setHours z 9 (setDate_plus 2 n) # setHours z 13 (setDate_plus 2 n) #
        setHours z 15 (setDate_plus 2 n) # setHours z 17 (setDate_plus 2 n) # rest"
      by (simp add: tr)
    moreover have "\<forall>i. 0 \<le> i \<and> i < (2::int) \<longrightarrow>
        getDay z (setDate_plus i n) = 0 \<or> getDay z (setDate_plus i n) = 6"
    proof (intro allI impI)
      fix i :: int assume "0 \<le> i \<and> i < 2"
      then have "i = 0 \<or> i = 1" by auto
      then show "getDay z (setDate_plus i n) = 0 \<or> getDay z (setDate_plus i n) = 6"
        using w0 w1 by auto
    qed
    ultimately show ?thesis using b2 by (intro exI[of _ 2]) auto
  qed
qed

lemma setHours_inj_hour: "setHours z h t = setHours z h' t \<Longrightarrow> h = h'"
  by (simp add: setHours_def msPerHour_def)

lemma set_replace_row: "set (replace_row k t' ts) \<subseteq> insert t' (set ts)"
  by (induction ts) auto

lemma replace_row_member: "findUnique k ts = Some t \<Longrightarrow> t' \<in> set (replace_row k t' ts)"
  by (induction ts) (auto simp: findUnique_def split: if_splits)

lemma first_free_slot_assigned:
  assumes "auth e = Some u" "findUnique k (tasks s) = Some t" "publishAt t = None"
    "i < length (slotTraversal (tz e) (now e))"
    "slotFree (tasks s) (slotTraversal (tz e) (now e) ! i)"
    "\<forall>j < i. \<not> slotFree (tasks s) (slotTraversal (tz e) (now e) ! j)"
  shows "\<exists>t'. fst (schedulePublication e s k r) = Inr t' \<and>
              publishAt t' = Some (slotTraversal (tz e) (now e) ! i) \<and>
              findUnique k (tasks (snd (schedulePublication e s k r))) = Some t'"
proof -
  let ?d = "slotTraversal (tz e) (now e) ! i"
  let ?dat = "\<lparr> data_publishAt = Some (Some ?d),
      data_columnId = Some (if truthy r then None else columnId t) \<rparr>"
  let ?t' = "apply_data ?dat (writeTime e) t"
  from createUser_auth[OF assms(1)] obtain s1 where s1: "createUserIfNotExists e s = Inr s1"
    by blast
  have f: "find (slotFree (tasks s)) (slotTraversal (tz e) (now e)) = Some ?d"
    unfolding find_Some_iff using assms(4,5,6) by blast
  note eq = path_slot[OF s1 assms(2,3) f refl, of r]
  have "id_task ?t' = k" using findUnique_SomeD[OF assms(2)] by (simp add: id_task_apply_data)
  then have "findUnique k (replace_row k ?t' (tasks s)) = Some ?t'"
    using findUnique_replace_same[OF assms(2)] by simp
  moreover have "publishAt ?t' = Some ?d" by (simp add: publishAt_apply_data_Some)
  ultimately show ?thesis by (simp add: eq)
qed

lemma two_sequential_tasks:
  assumes au: "auth e = Some u" "auth e2 = Some u2"
    and same_day: "tz e2 = tz e" "localDay (tz e) (now e2) = localDay (tz e) (now e)"
    and fa: "findUnique a (tasks s) = Some ta" and fb: "findUnique b (tasks s) = Some tb"
    and ne: "a \<noteq> b"
    and pa: "publishAt ta = None" and pb: "publishAt tb = None"
    and empty: "\<forall>d \<in> set (slotTraversal (tz e) (now e)). slotFree (tasks s) d"
    and plan: "columnId ta = None \<or> ra = Some True"
  shows "\<exists>j ta' tb' s1 s2.
           schedulePublication e s a ra = (Inr ta', s1) \<and>
           schedulePublication e2 s1 b rb = (Inr tb', s2) \<and>
           0 \<le> j \<and> j \<le> 2 \<and>
           getDay (tz e) (setDate_plus j (now e)) \<noteq> 0 \<and>
           getDay (tz e) (setDate_plus j (now e)) \<noteq> 6 \<and>
           (\<forall>i. 0 \<le> i \<and> i < j \<longrightarrow> getDay (tz e) (setDate_plus i (now e)) = 0 \<or>
                                   getDay (tz e) (setDate_plus i (now e)) = 6) \<and>
           publishAt ta' = Some (setHours (tz e) 9 (setDate_plus j (now e))) \<and>
           publishAt tb' = Some (setHours (tz e) 13 (setDate_plus j (now e)))"
proof -
  let ?z = "tz e"
  let ?T = "slotTraversal ?z (now e)"
  from slotTraversal_first_business_day[of ?z "now e"] obtain j rest where
    j: "0 \<le> j" "j \<le> 2"
    and bd: "getDay ?z (setDate_plus j (now e)) \<noteq> 0" "getDay ?z (setDate_plus j (now e)) \<noteq> 6"
    and wk: "\<forall>i. 0 \<le> i \<and> i < j \<longrightarrow> getDay ?z (setDate_plus i (now e)) = 0 \<or>
                                   getDay ?z (setDate_plus i (now e)) = 6"
    and T: "?T = setHours ?z 9 (setDate_plus j (now e)) # setHours ?z 13 (setDate_plus j (now e)) #
        setHours ?z 15 (setDate_plus j (now e)) # setHours ?z 17 (setDate_plus j (now e)) # rest"
    by blast
  let ?s9 = "setHours ?z 9 (setDate_plus j (now e))"
  let ?s13 = "setHours ?z 13 (setDate_plus j (now e))"
  have free9: "slotFree (tasks s) ?s9" and free13: "slotFree (tasks s) ?s13"
    using empty T by simp_all
  \<comment> \<open>the first call\<close>
  from createUser_auth[OF au(1)] obtain c1 where c1: "createUserIfNotExists e s = Inr c1"
    by blast
  have f1: "find (slotFree (tasks s)) ?T = Some ?s9" using free9 by (simp add: T)
  let ?dat1 = "\<lparr> data_publishAt = Some (Some ?s9),
      data_columnId = Some (if truthy ra then None else columnId ta) \<rparr>"
  let ?ta' = "apply_data ?dat1 (writeTime e) ta"
  let ?s1 = "c1\<lparr> tasks := replace_row a ?ta' (tasks s), taskUpdates := taskUpdates s @ [(a, ?dat1)] \<rparr>"
  have call1: "schedulePublication e s a ra = (Inr ?ta', ?s1)"
    by (rule path_slot[OF c1 fa pa f1 refl])
  have pa': "publishAt ?ta' = Some ?s9" by (simp add: publishAt_apply_data_Some)
  have ca': "columnId ?ta' = None"
    using plan by (auto simp: columnId_apply_data_Some truthy_def)
  have ia': "id_task ?ta' = a" using findUnique_SomeD[OF fa] by (simp add: id_task_apply_data)
  \<comment> \<open>the store after the first call\<close>
  have ts1: "tasks ?s1 = replace_row a ?ta' (tasks s)" by simp
  have fb1: "findUnique b (tasks ?s1) = Some tb"
    using findUnique_replace_other[OF ne[symmetric] ia', of "tasks s"] fb by (simp only: ts1)
  have mem: "?ta' \<in> set (tasks ?s1)"
    using replace_row_member[OF fa, of ?ta'] by (simp only: ts1)
  have occ9: "\<not> slotFree (tasks ?s1) ?s9"
    unfolding slotFree_def using mem pa' ca' by blast
  have free13': "slotFree (tasks ?s1) ?s13"
    unfolding slotFree_def
  proof (intro notI, elim bexE conjE)
    fix x assume x: "x \<in> set (tasks ?s1)" and px: "publishAt x = Some ?s13" and cx: "columnId x = None"
    from x have "x = ?ta' \<or> x \<in> set (tasks s)"
      using set_replace_row[of a ?ta' "tasks s"] by (auto simp only: ts1)
    then show False
    proof
      assume "x = ?ta'"
      then have "?s13 = ?s9" using px pa' by simp
      then show False using setHours_inj_hour[of ?z 13 "setDate_plus j (now e)" 9] by simp
    next
      assume "x \<in> set (tasks s)"
      then show False using free13 px cx unfolding slotFree_def by blast
    qed
  qed
  \<comment> \<open>the second call\<close>
  from createUser_auth[OF au(2)] obtain c2 where c2: "createUserIfNotExists e2 ?s1 = Inr c2"
    by blast
  have T2: "slotTraversal (tz e2) (now e2) = ?T"
    using slotTraversal_localDay_cong[OF same_day(2)] same_day(1) by simp
  have f2: "find (slotFree (tasks ?s1)) (slotTraversal (tz e2) (now e2)) = Some ?s13"
    using occ9 free13' by (simp only: T2 T find.simps if_False if_True)
  let ?dat2 = "\<lparr> data_publishAt = Some (Some ?s13),
      data_columnId = Some (if truthy rb then None else columnId tb) \<rparr>"
  let ?tb' = "apply_data ?dat2 (writeTime e2) tb"
  let ?s2 = "c2\<lparr> tasks := replace_row b ?tb' (tasks ?s1), taskUpdates := taskUpdates ?s1 @ [(b, ?dat2)] \<rparr>"
  have call2: "schedulePublication e2 ?s1 b rb = (Inr ?tb', ?s2)"
    by (rule path_slot[OF c2 fb1 pb f2 refl])
  have pb': "publishAt ?tb' = Some ?s13" by (simp add: publishAt_apply_data_Some)
  from call1 call2 j bd wk pa' pb' show ?thesis by blast
qed

section \<open>The claims\<close>

text \<open>
  C1 (as the code has it). For an authenticated caller and a task with null
  \<open>publishAt\<close>, the action assigns the first free slot of the traversal that starts
  today, covers 30 calendar days with days outer, and tries 09:00, 13:00, 15:00, 17:00 of
  each business day in that order: if the \<open>i\<close>-th slot of the traversal is free and all
  earlier ones are occupied, the task receives the \<open>i\<close>-th slot. In particular, two
  unscheduled tasks scheduled one after the other on the same day against an
  otherwise-empty horizon get 09:00 and 13:00 of the first business day (today, tomorrow
  or the day after), provided the first task is in the content plan after its call (its
  column was null or \<open>removeFromKanban\<close> was true).
\<close>

theorem first_free_slot_in_traversal:
  "(\<forall>e s k r t u i.
      auth e = Some u \<longrightarrow> findUnique k (tasks s) = Some t \<longrightarrow> publishAt t = None \<longrightarrow>
      i < length (slotTraversal (tz e) (now e)) \<longrightarrow>
      slotFree (tasks s) (slotTraversal (tz e) (now e) ! i) \<longrightarrow>
      (\<forall>j < i. \<not> slotFree (tasks s) (slotTraversal (tz e) (now e) ! j)) \<longrightarrow>
      (\<exists>t'. fst (schedulePublication e s k r) = Inr t' \<and>
            publishAt t' = Some (slotTraversal (tz e) (now e) ! i) \<and>
            findUnique k (tasks (snd (schedulePublication e s k r))) = Some t')) \<and>
   (\<forall>e e2 s a b ra rb ta tb u u2.
      auth e = Some u \<longrightarrow> auth e2 = Some u2 \<longrightarrow>
      tz e2 = tz e \<longrightarrow> localDay (tz e) (now e2) = localDay (tz e) (now e) \<longrightarrow>
      findUnique a (tasks s) = Some ta \<longrightarrow> findUnique b (tasks s) = Some tb \<longrightarrow> a \<noteq> b \<longrightarrow>
      publishAt ta = None \<longrightarrow> publishAt tb = None \<longrightarrow>
      (\<forall>d \<in> set (slotTraversal (tz e) (now e)). slotFree (tasks s) d) \<longrightarrow>
      (columnId ta = None \<or> ra = Some True) \<longrightarrow>
      (\<exists>j ta' tb' s1 s2.
           schedulePublication e s a ra = (Inr ta', s1) \<and>
           schedulePublication e2 s1 b rb = (Inr tb', s2) \<and>
           0 \<le> j \<and> j \<le> 2 \<and>
           getDay (tz e) (setDate_plus j (now e)) \<noteq> 0 \<and>
           getDay (tz e) (setDate_plus j (now e)) \<noteq> 6 \<and>
           (\<forall>i. 0 \<le> i \<and> i < j \<longrightarrow> getDay (tz e) (setDate_plus i (now e)) = 0 \<or>
                                   getDay (tz e) (setDate_plus i (now e)) = 6) \<and>
           publishAt ta' = Some (setHours (tz e) 9 (setDate_plus j (now e))) \<and>
           publishAt tb' = Some (setHours (tz e) 13 (setDate_plus j (now e)))))"
proof (rule conjI)
  show "\<forall>e s k r t u i.
      auth e = Some u \<longrightarrow> findUnique k (tasks s) = Some t \<longrightarrow> publishAt t = None \<longrightarrow>
      i < length (slotTraversal (tz e) (now e)) \<longrightarrow>
      slotFree (tasks s) (slotTraversal (tz e) (now e) ! i) \<longrightarrow>
      (\<forall>j < i. \<not> slotFree (tasks s) (slotTraversal (tz e) (now e) ! j)) \<longrightarrow>
      (\<exists>t'. fst (schedulePublication e s k r) = Inr t' \<and>
            publishAt t' = Some (slotTraversal (tz e) (now e) ! i) \<and>
            findUnique k (tasks (snd (schedulePublication e s k r))) = Some t')"
    by (intro allI impI) (rule first_free_slot_assigned)
next
  show "\<forall>e e2 s a b ra rb ta tb u u2.
      auth e = Some u \<longrightarrow> auth e2 = Some u2 \<longrightarrow>
      tz e2 = tz e \<longrightarrow> localDay (tz e) (now e2) = localDay (tz e) (now e) \<longrightarrow>
      findUnique a (tasks s) = Some ta \<longrightarrow> findUnique b (tasks s) = Some tb \<longrightarrow> a \<noteq> b \<longrightarrow>
      publishAt ta = None \<longrightarrow> publishAt tb = None \<longrightarrow>
      (\<forall>d \<in> set (slotTraversal (tz e) (now e)). slotFree (tasks s) d) \<longrightarrow>
      (columnId ta = None \<or> ra = Some True) \<longrightarrow>
      (\<exists>j ta' tb' s1 s2.
           schedulePublication e s a ra = (Inr ta', s1) \<and>
           schedulePublication e2 s1 b rb = (Inr tb', s2) \<and>
           0 \<le> j \<and> j \<le> 2 \<and>
           getDay (tz e) (setDate_plus j (now e)) \<noteq> 0 \<and>
           getDay (tz e) (setDate_plus j (now e)) \<noteq> 6 \<and>
           (\<forall>i. 0 \<le> i \<and> i < j \<longrightarrow> getDay (tz e) (setDate_plus i (now e)) = 0 \<or>
                                   getDay (tz e) (setDate_plus i (now e)) = 6) \<and>
           publishAt ta' = Some (setHours (tz e) 9 (setDate_plus j (now e))) \<and>
           publishAt tb' = Some (setHours (tz e) 13 (setDate_plus j (now e))))"
    by (intro allI impI) (rule two_sequential_tasks)
qed

text \<open>Monday 1 January 2024. With 09:00 taken by a content-plan task, an unscheduled
  task receives slot number 1 of the traversal, 13:00. With an empty horizon, a task
  taken off the board gets 09:00 and the task scheduled a minute later gets 13:00.\<close>

theorem first_free_slot_in_traversal_witness:
  "(auth example_env = Some ''u1'' \<and>
    findUnique ''a'' (tasks (example_store
        [example_task ''x'' None (Some 1704088800000), example_task ''a'' None None])) =
      Some (example_task ''a'' None None) \<and>
    publishAt (example_task ''a'' None None) = None \<and>
    1 < length (slotTraversal (tz example_env) (now example_env)) \<and>
    slotTraversal (tz example_env) (now example_env) ! 1 = 1704103200000 \<and>
    slotFree (tasks (example_store
        [example_task ''x'' None (Some 1704088800000), example_task ''a'' None None]))
      (slotTraversal (tz example_env) (now example_env) ! 1) \<and>
    \<not> slotFree (tasks (example_store
        [example_task ''x'' None (Some 1704088800000), example_task ''a'' None None]))
      (slotTraversal (tz example_env) (now example_env) ! 0) \<and>
    (\<exists>t'. fst (schedulePublication example_env (example_store
        [example_task ''x'' None (Some 1704088800000), example_task ''a'' None None])
           ''a'' None) = Inr t' \<and>
          publishAt t' = Some (slotTraversal (tz example_env) (now example_env) ! 1))) \<and>
   (auth (example_env\<lparr> now := 1704132060000 \<rparr>) = Some ''u1'' \<and>
    tz (example_env\<lparr> now := 1704132060000 \<rparr>) = tz example_env \<and>
    localDay (tz example_env) (now (example_env\<lparr> now := 1704132060000 \<rparr>)) =
      localDay (tz example_env) (now example_env) \<and>
    findUnique ''a'' (tasks (example_store
        [example_task ''a'' (Some ''C'') None, example_task ''b'' None None])) =
      Some (example_task ''a'' (Some ''C'') None) \<and>
    findUnique ''b'' (tasks (example_store
        [example_task ''a'' (Some ''C'') None, example_task ''b'' None None])) =
      Some (example_task ''b'' None None) \<and>
    ''a'' \<noteq> ''b'' \<and>
    list_all (slotFree (tasks (example_store
          [example_task ''a'' (Some ''C'') None, example_task ''b'' None None])))
      (slotTraversal (tz example_env) (now example_env)) \<and>
    (\<exists>j ta' tb' s1 s2.
        schedulePublication example_env (example_store
          [example_task ''a'' (Some ''C'') None, example_task ''b'' None None])
          ''a'' (Some True) = (Inr ta', s1) \<and>
        schedulePublication (example_env\<lparr> now := 1704132060000 \<rparr>) s1 ''b'' None = (Inr tb', s2) \<and>
        0 \<le> j \<and> j \<le> 2 \<and>
        publishAt ta' = Some (setHours (tz example_env) 9 (setDate_plus j (now example_env))) \<and>
        publishAt tb' = Some (setHours (tz example_env) 13 (setDate_plus j (now example_env)))))"
proof -
  let ?e = "example_env"
  let ?e2 = "example_env\<lparr> now := 1704132060000 \<rparr>"
  let ?sA = "example_store [example_task ''x'' None (Some 1704088800000), example_task ''a'' None None]"
  let ?sB = "example_store [example_task ''a'' (Some ''C'') None, example_task ''b'' None None]"
  let ?T = "slotTraversal (tz ?e) (now ?e)"
  note thA = first_free_slot_in_traversal[THEN conjunct1, rule_format]
  note thB = first_free_slot_in_traversal[THEN conjunct2, rule_format]
  have a1: "auth ?e = Some ''u1''" by code_simp
  have a2: "findUnique ''a'' (tasks ?sA) = Some (example_task ''a'' None None)" by code_simp
  have a3: "publishAt (example_task ''a'' None None) = None" by code_simp
  have a4: "1 < length ?T" by code_simp
  have a5: "?T ! 1 = 1704103200000" by code_simp
  have a6: "slotFree (tasks ?sA) (?T ! 1)" by code_simp
  have a0: "\<not> slotFree (tasks ?sA) (?T ! 0)" by code_simp
  then have a7: "\<forall>j < 1. \<not> slotFree (tasks ?sA) (?T ! j)" by simp
  from thA[OF a1 a2 a3 a4 a6 a7[rule_format], of None]
  have a8: "\<exists>t'. fst (schedulePublication ?e ?sA ''a'' None) = Inr t' \<and> publishAt t' = Some (?T ! 1)"
    by blast
  have b1: "auth ?e2 = Some ''u1''" by code_simp
  have b2: "tz ?e2 = tz ?e" by code_simp
  have b3: "localDay (tz ?e) (now ?e2) = localDay (tz ?e) (now ?e)" by code_simp
  have b4: "findUnique ''a'' (tasks ?sB) = Some (example_task ''a'' (Some ''C'') None)" by code_simp
  have b5: "findUnique ''b'' (tasks ?sB) = Some (example_task ''b'' None None)" by code_simp
  have b6: "''a'' \<noteq> ''b''" by simp
  have b7: "publishAt (example_task ''a'' (Some ''C'') None) = None" by code_simp
  have b8: "publishAt (example_task ''b'' None None) = None" by code_simp
  have b9': "list_all (slotFree (tasks ?sB)) ?T" by code_simp
  then have b9: "\<forall>d \<in> set ?T. slotFree (tasks ?sB) d" by (simp add: list_all_iff)
  have b10: "columnId (example_task ''a'' (Some ''C'') None) = None \<or> Some True = Some True" by simp
  from thB[OF a1 b1 b2 b3 b4 b5 b6 b7 b8 b9[rule_format] b10, of None]
  have b11: "\<exists>j ta' tb' s1 s2.
        schedulePublication ?e ?sB ''a'' (Some True) = (Inr ta', s1) \<and>
        schedulePublication ?e2 s1 ''b'' None = (Inr tb', s2) \<and>
        0 \<le> j \<and> j \<le> 2 \<and>
        publishAt ta' = Some (setHours (tz ?e) 9 (setDate_plus j (now ?e))) \<and>
        publishAt tb' = Some (setHours (tz ?e) 13 (setDate_plus j (now ?e)))"
    by blast
  show ?thesis
    by (rule conjI[OF conjI[OF a1 conjI[OF a2 conjI[OF a3 conjI[OF a4 conjI[OF a5 conjI[OF a6 conjI[OF a0 a8]]]]]]]
                      conjI[OF b1 conjI[OF b2 conjI[OF b3 conjI[OF b4 conjI[OF b5 conjI[OF b6 conjI[OF b9' b11]]]]]]]])
qed

text \<open>C1 as stated fails when the first task stays on its kanban column: it does not
  occupy the slot it was given, and the second task receives 09:00 as well, not 13:00.\<close>

theorem second_task_same_slot_counterexample:
  "fst (schedulePublication example_env
          (example_store [example_task ''a'' (Some ''C'') None, example_task ''b'' None None])
          ''a'' None) =
     Inr ((example_task ''a'' (Some ''C'') (Some 1704088800000))\<lparr> updatedAt := 1704132000500 \<rparr>) \<and>
   fst (schedulePublication example_env
          (snd (schedulePublication example_env
             (example_store [example_task ''a'' (Some ''C'') None, example_task ''b'' None None])
             ''a'' None))
          ''b'' None) =
     Inr ((example_task ''b'' None (Some 1704088800000))\<lparr> updatedAt := 1704132000500 \<rparr>) \<and>
   setHours (tz example_env) 9 (now example_env) = 1704088800000 \<and>
   setHours (tz example_env) 13 (now example_env) \<noteq> 1704088800000"
  by code_simp

text \<open>
  C2. For every task with null \<open>publishAt\<close> that \<open>schedulePublication\<close> succeeds on,
  the chosen slot is free: no task of the store with null column has exactly that
  instant as \<open>publishAt\<close>. The instant has one of the four grid hours and zero minutes,
  seconds and milliseconds in local time. Tasks on a kanban column do not occupy slots:
  the search on the whole table returns what it returns on the rows with null column
  alone.
\<close>

theorem chosen_slot_is_free:
  assumes "findUnique k (tasks s) = Some t" "publishAt t = None"
    "schedulePublication e s k r = (Inr t', s')"
  shows "\<exists>d. publishAt t' = Some d \<and>
             (\<forall>x \<in> set (tasks s). columnId x = None \<longrightarrow> publishAt x \<noteq> Some d) \<and>
             findFirst d (tasks s) = None \<and>
             (d + tz e) mod msPerDay \<in> set (map (\<lambda>hour. hour * msPerHour) timeSlots) \<and>
             scanDays (tz e) (filter (\<lambda>x. columnId x = None) (tasks s))
               (setHours (tz e) 9 (now e)) 0 = Some d"
proof -
  from assms obtain s1 d dat where
    f: "find (slotFree (tasks s)) (slotTraversal (tz e) (now e)) = Some d"
    and dat: "dat = \<lparr> data_publishAt = Some (Some d),
             data_columnId = Some (if truthy r then None else columnId t) \<rparr>"
    and t': "t' = apply_data dat (writeTime e) t"
    by (rule slot_success_cases)
  have p: "publishAt t' = Some d" using t' dat by (simp add: publishAt_apply_data_Some)
  have m: "d \<in> set (slotTraversal (tz e) (now e))" and fr: "slotFree (tasks s) d"
    using find_SomeD[OF f] by simp_all
  have a: "\<forall>x \<in> set (tasks s). columnId x = None \<longrightarrow> publishAt x \<noteq> Some d"
    using fr by (auto simp: slotFree_def)
  have b: "findFirst d (tasks s) = None" using fr by (simp add: findFirst_None_iff)
  have c: "(d + tz e) mod msPerDay \<in> set (map (\<lambda>hour. hour * msPerHour) timeSlots)"
    using slotTraversal_member[OF m] by blast
  have "scanDays (tz e) (filter (\<lambda>x. columnId x = None) (tasks s)) (setHours (tz e) 9 (now e)) 0 = Some d"
    using f by (simp only: scanDays_traversal find_slotFree_filter)
  with p a b c show ?thesis by blast
qed

text \<open>The 09:00 slot of Monday 1 January 2024 is chosen although a kanban task carries
  exactly that instant and a content-plan task sits one millisecond later.\<close>

theorem chosen_slot_is_free_witness:
  "findUnique ''a'' (tasks (example_store
       [example_task ''x'' None (Some 1704088800001),
        example_task ''y'' (Some ''C'') (Some 1704088800000),
        example_task ''a'' None None])) = Some (example_task ''a'' None None) \<and>
   publishAt (example_task ''a'' None None) = None \<and>
   fst (schedulePublication example_env (example_store
       [example_task ''x'' None (Some 1704088800001),
        example_task ''y'' (Some ''C'') (Some 1704088800000),
        example_task ''a'' None None]) ''a'' None) =
     Inr ((example_task ''a'' None (Some 1704088800000))\<lparr> updatedAt := 1704132000500 \<rparr>) \<and>
   (\<exists>d. publishAt ((example_task ''a'' None (Some 1704088800000))\<lparr> updatedAt := 1704132000500 \<rparr>)
          = Some d \<and>
        findFirst d (tasks (example_store
          [example_task ''x'' None (Some 1704088800001),
           example_task ''y'' (Some ''C'') (Some 1704088800000),
           example_task ''a'' None None])) = None)"
proof -
  let ?s = "example_store
       [example_task ''x'' None (Some 1704088800001),
        example_task ''y'' (Some ''C'') (Some 1704088800000),
        example_task ''a'' None None]"
  let ?t' = "(example_task ''a'' None (Some 1704088800000))\<lparr> updatedAt := 1704132000500 \<rparr>"
  have h1: "findUnique ''a'' (tasks ?s) = Some (example_task ''a'' None None)" by code_simp
  have h2: "publishAt (example_task ''a'' None None) = None" by code_simp
  have h3: "fst (schedulePublication example_env ?s ''a'' None) = Inr ?t'" by code_simp
  then have h3p: "schedulePublication example_env ?s ''a'' None =
      (Inr ?t', snd (schedulePublication example_env ?s ''a'' None))"
    by (simp add: prod_eq_iff)
  from chosen_slot_is_free[OF h1 h2 h3p]
  have c: "\<exists>d. publishAt ?t' = Some d \<and> findFirst d (tasks ?s) = None" by blast
  show ?thesis by (rule conjI[OF h1 conjI[OF h2 conjI[OF h3 c]]])
qed

text \<open>
  C3. For every task with null \<open>publishAt\<close> and every store state, the slot search
  never chooses a slot whose day is a Saturday or a Sunday: whenever the action succeeds
  on such a task, the returned and persisted \<open>publishAt\<close> is an instant whose local
  weekday is neither 0 (Sunday) nor 6 (Saturday).
\<close>

theorem chosen_slot_not_weekend:
  assumes "findUnique k (tasks s) = Some t" "publishAt t = None"
    "schedulePublication e s k r = (Inr t', s')"
  shows "\<exists>d. publishAt t' = Some d \<and> findUnique k (tasks s') = Some t' \<and>
             getDay (tz e) d \<noteq> 0 \<and> getDay (tz e) d \<noteq> 6"
proof -
  from assms obtain s1 d dat where
    f: "find (slotFree (tasks s)) (slotTraversal (tz e) (now e)) = Some d"
    and dat: "dat = \<lparr> data_publishAt = Some (Some d),
             data_columnId = Some (if truthy r then None else columnId t) \<rparr>"
    and t': "t' = apply_data dat (writeTime e) t"
    and s': "s' = s1\<lparr> tasks := replace_row k t' (tasks s), taskUpdates := taskUpdates s @ [(k, dat)] \<rparr>"
    by (rule slot_success_cases)
  have p: "publishAt t' = Some d" using t' dat by (simp add: publishAt_apply_data_Some)
  have "id_task t' = k" using t' findUnique_SomeD[OF assms(1)] by (simp add: id_task_apply_data)
  then have u: "findUnique k (tasks s') = Some t'"
    using s' findUnique_replace_same[OF assms(1)] by simp
  have "d \<in> set (slotTraversal (tz e) (now e))" using find_SomeD[OF f] by simp
  then have "getDay (tz e) d \<noteq> 0 \<and> getDay (tz e) d \<noteq> 6" using slotTraversal_member by blast
  then show ?thesis using p u by blast
qed

text \<open>The action run on a Saturday evening (6 January 2024, 21:00) assigns Monday
  8 January, 09:00.\<close>

theorem chosen_slot_not_weekend_witness:
  "findUnique ''a'' (tasks (example_store [example_task ''a'' (Some ''C'') None])) =
     Some (example_task ''a'' (Some ''C'') None) \<and>
   publishAt (example_task ''a'' (Some ''C'') None) = None \<and>
   fst (schedulePublication (example_env\<lparr> now := 1704564000000 \<rparr>)
          (example_store [example_task ''a'' (Some ''C'') None]) ''a'' (Some True)) =
     Inr ((example_task ''a'' None (Some 1704693600000))\<lparr> updatedAt := 1704132000500 \<rparr>) \<and>
   (\<exists>d. publishAt ((example_task ''a'' None (Some 1704693600000))\<lparr> updatedAt := 1704132000500 \<rparr>)
          = Some d \<and>
        getDay (tz (example_env\<lparr> now := 1704564000000 \<rparr>)) d \<noteq> 0 \<and>
        getDay (tz (example_env\<lparr> now := 1704564000000 \<rparr>)) d \<noteq> 6)"
proof -
  let ?t = "example_task ''a'' (Some ''C'') None"
  let ?s = "example_store [?t]"
  let ?e = "example_env\<lparr> now := 1704564000000 \<rparr>"
  let ?t' = "(example_task ''a'' None (Some 1704693600000))\<lparr> updatedAt := 1704132000500 \<rparr>"
  have h1: "findUnique ''a'' (tasks ?s) = Some ?t" by code_simp
  have h2: "publishAt ?t = None" by code_simp
  have h3: "fst (schedulePublication ?e ?s ''a'' (Some True)) = Inr ?t'" by code_simp
  then have h3p: "schedulePublication ?e ?s ''a'' (Some True) =
     (Inr ?t', snd (schedulePublication ?e ?s ''a'' (Some True)))"
    by (simp add: prod_eq_iff)
  from chosen_slot_not_weekend[OF h1 h2 h3p]
  have c: "\<exists>d. publishAt ?t' = Some d \<and> getDay (tz ?e) d \<noteq> 0 \<and> getDay (tz ?e) d \<noteq> 6"
    by blast
  show ?thesis by (rule conjI[OF h1 conjI[OF h2 conjI[OF h3 c]]])
qed

text \<open>
  C4 (as the code has it). The action obtains the caller's user row before it loads
  the task. For an authenticated caller, for whom that step succeeds: the call fails with
  \<open>NotFound\<close> iff \<open>taskId\<close> does not resolve to an existing task; it fails with
  \<open>NoAvailableSlot\<close> iff the task's \<open>publishAt\<close> is null and every one of the four
  slots on every business day of the 30-day horizon is occupied; in either failure case
  no task in the store is changed and no update is performed.
\<close>

theorem failure_kinds_authenticated:
  assumes "auth e = Some u"
  shows "(fst (schedulePublication e s k r) = Inl NotFound \<longleftrightarrow>
            findUnique k (tasks s) = None) \<and>
         (fst (schedulePublication e s k r) = Inl NoAvailableSlot \<longleftrightarrow>
            (\<exists>t. findUnique k (tasks s) = Some t \<and> publishAt t = None \<and>
                 (\<forall>d \<in> set (slotTraversal (tz e) (now e)). \<not> slotFree (tasks s) d))) \<and>
         (fst (schedulePublication e s k r) = Inl NotFound \<or>
          fst (schedulePublication e s k r) = Inl NoAvailableSlot \<longrightarrow>
            tasks (snd (schedulePublication e s k r)) = tasks s \<and>
            taskUpdates (snd (schedulePublication e s k r)) = taskUpdates s)"
proof -
  from createUser_auth[OF assms] obtain s1 where s1: "createUserIfNotExists e s = Inr s1"
    by blast
  note fr = createUser_Inr[OF s1]
  show ?thesis
  proof (cases "findUnique k (tasks s)")
    case None
    show ?thesis using None fr by (simp add: path_missing[OF s1 None])
  next
    case (Some t)
    show ?thesis
    proof (cases "publishAt t")
      case (Some p)
      show ?thesis
      proof (cases "truthy r")
        case True
        show ?thesis
          using \<open>findUnique k (tasks s) = Some t\<close> Some
          by (simp add: path_explicit_remove[OF s1 \<open>findUnique k (tasks s) = Some t\<close> Some True])
      next
        case False
        show ?thesis
          using \<open>findUnique k (tasks s) = Some t\<close> Some
          by (simp add: path_explicit_keep[OF s1 \<open>findUnique k (tasks s) = Some t\<close> Some False])
      qed
    next
      case None
      show ?thesis
      proof (cases "find (slotFree (tasks s)) (slotTraversal (tz e) (now e))")
        case (Some d)
        have "\<not> (\<forall>d \<in> set (slotTraversal (tz e) (now e)). \<not> slotFree (tasks s) d)"
          using find_SomeD[OF Some] by blast
        then show ?thesis
          using \<open>findUnique k (tasks s) = Some t\<close>
          by (simp add: path_slot[OF s1 \<open>findUnique k (tasks s) = Some t\<close> None Some refl])
      next
        case nf: None
        have "\<forall>d \<in> set (slotTraversal (tz e) (now e)). \<not> slotFree (tasks s) d"
          using nf by (simp add: find_None_all)
        then show ?thesis
          using \<open>findUnique k (tasks s) = Some t\<close> None fr
          by (simp add: path_exhausted[OF s1 \<open>findUnique k (tasks s) = Some t\<close> None nf])
      qed
    qed
  qed
qed

text \<open>An authenticated call on an unknown id, and one on an unscheduled task when all
  88 slots of the horizon are taken.\<close>

theorem failure_kinds_authenticated_witness:
  "auth example_env = Some ''u1'' \<and>
   findUnique ''ghost'' (tasks example_full_store) = None \<and>
   fst (schedulePublication example_env example_full_store ''ghost'' None) = Inl NotFound \<and>
   findUnique ''a'' (tasks example_full_store) = Some (example_task ''a'' None None) \<and>
   list_all (\<lambda>d. \<not> slotFree (tasks example_full_store) d)
     (slotTraversal (tz example_env) (now example_env)) \<and>
   length (slotTraversal (tz example_env) (now example_env)) = 88 \<and>
   fst (schedulePublication example_env example_full_store ''a'' None) = Inl NoAvailableSlot \<and>
   tasks (snd (schedulePublication example_env example_full_store ''a'' None)) =
     tasks example_full_store \<and>
   taskUpdates (snd (schedulePublication example_env example_full_store ''a'' None)) =
     taskUpdates example_full_store"
proof -
  have h: "auth example_env = Some ''u1''" by code_simp
  have g: "findUnique ''ghost'' (tasks example_full_store) = None" by code_simp
  have a: "findUnique ''a'' (tasks example_full_store) = Some (example_task ''a'' None None)"
    by code_simp
  have o: "\<forall>d \<in> set (slotTraversal (tz example_env) (now example_env)).
       \<not> slotFree (tasks example_full_store) d"
  proof
    fix d assume "d \<in> set (slotTraversal (tz example_env) (now example_env))"
    then obtain i where "i < length (slotTraversal (tz example_env) (now example_env))"
      "slotTraversal (tz example_env) (now example_env) ! i = d"
      by (auto simp: in_set_conv_nth)
    then have "(i, d) \<in> set (enumerate 0 (slotTraversal (tz example_env) (now example_env)))"
      by (simp add: in_set_enumerate_eq)
    then have "example_task (replicate (Suc i) CHR ''x'') None (Some d) \<in> set (tasks example_full_store)"
      by (force simp: example_full_store_def example_store_def)
    moreover have "publishAt (example_task (replicate (Suc i) CHR ''x'') None (Some d)) = Some d"
      "columnId (example_task (replicate (Suc i) CHR ''x'') None (Some d)) = None"
      by (simp_all add: example_task_def)
    ultimately show "\<not> slotFree (tasks example_full_store) d"
      unfolding slotFree_def by blast
  qed
  have o': "list_all (\<lambda>d. \<not> slotFree (tasks example_full_store) d)
     (slotTraversal (tz example_env) (now example_env))"
    using o by (simp add: list_all_iff)
  have l: "length (slotTraversal (tz example_env) (now example_env)) = 88" by code_simp
  have p: "publishAt (example_task ''a'' None None) = None" by code_simp
  note th1 = failure_kinds_authenticated[OF h, of example_full_store "''ghost''" None]
  note th2 = failure_kinds_authenticated[OF h, of example_full_store "''a''" None]
  have c1: "fst (schedulePublication example_env example_full_store ''ghost'' None) = Inl NotFound"
    using th1 g by blast
  have c2: "fst (schedulePublication example_env example_full_store ''a'' None) = Inl NoAvailableSlot"
    using th2 a o p by blast
  have c3: "tasks (snd (schedulePublication example_env example_full_store ''a'' None)) =
     tasks example_full_store"
    using th2 c2 by blast
  have c4: "taskUpdates (snd (schedulePublication example_env example_full_store ''a'' None)) =
     taskUpdates example_full_store"
    using th2 c2 by blast
  show ?thesis
    by (rule conjI[OF h conjI[OF g conjI[OF c1 conjI[OF a conjI[OF o' conjI[OF l conjI[OF c2 conjI[OF c3 c4]]]]]]]])
qed

text \<open>C4 as stated fails without an authenticated user: the id does not resolve, yet
  the error is not \<open>NotFound\<close>.\<close>

theorem failure_kinds_counterexample:
  "\<not> (fst (schedulePublication (example_env\<lparr> auth := None \<rparr>) (example_store []) ''ghost'' None)
        = Inl NotFound \<longleftrightarrow>
      findUnique ''ghost'' (tasks (example_store [])) = None)"
  by code_simp

text \<open>
  C5. For a task with non-null \<open>publishAt\<close> and \<open>removeFromKanban = true\<close> the design
  document has the returned task carry a cleared column reference. The action returns
  the row it loaded before the update: at the input below the returned task still has
  column \<open>C\<close>, while the persisted row has a null column.
\<close>

theorem explicit_path_returns_loaded_task:
  "fst (schedulePublication example_env
          (example_store [example_task ''a'' (Some ''C'') (Some 1704279000000)])
          ''a'' (Some True)) =
     Inr (example_task ''a'' (Some ''C'') (Some 1704279000000)) \<and>
   columnId (example_task ''a'' (Some ''C'') (Some 1704279000000)) = Some ''C'' \<and>
   findUnique ''a'' (tasks (snd (schedulePublication example_env
          (example_store [example_task ''a'' (Some ''C'') (Some 1704279000000)])
          ''a'' (Some True)))) =
     Some ((example_task ''a'' None (Some 1704279000000))\<lparr> updatedAt := 1704132000500 \<rparr>)"
  by code_simp

text \<open>
  C6. For every task with a pre-set (non-null) \<open>publishAt\<close>, calling
  \<open>schedulePublication\<close> never changes the task's persisted \<open>publishAt\<close>,
  whatever the value of \<open>removeFromKanban\<close> (and whether or not the call succeeds).
\<close>

theorem explicit_publishAt_never_changed:
  assumes "findUnique k (tasks s) = Some t" "publishAt t = Some p"
  shows "\<exists>t'. findUnique k (tasks (snd (schedulePublication e s k r))) = Some t' \<and>
              publishAt t' = Some p"
  using assms
proof (cases rule: explicit_cases[where e = e and r = r])
  case unauthenticated
  then show ?thesis using assms by simp
next
  case (keep s1)
  then show ?thesis using assms createUser_Inr[OF keep(1)] by simp
next
  case (remove s1)
  let ?t' = "apply_data \<lparr> data_publishAt = None, data_columnId = Some None \<rparr> (writeTime e) t"
  have "id_task ?t' = k" using findUnique_SomeD[OF assms(1)] by (simp add: id_task_apply_data)
  then have "findUnique k (replace_row k ?t' (tasks s)) = Some ?t'"
    using findUnique_replace_same[OF assms(1)] by simp
  moreover have "publishAt ?t' = Some p"
    using assms(2) by (simp add: publishAt_apply_data_None)
  ultimately show ?thesis using remove(3) by simp
qed

text \<open>A task on column \<open>C\<close> with an explicit time, scheduled with
  \<open>removeFromKanban = true\<close>.\<close>

theorem explicit_publishAt_never_changed_witness:
  "findUnique ''a'' (tasks (example_store [example_task ''a'' (Some ''C'') (Some 1704279000000)])) =
     Some (example_task ''a'' (Some ''C'') (Some 1704279000000)) \<and>
   publishAt (example_task ''a'' (Some ''C'') (Some 1704279000000)) = Some 1704279000000 \<and>
   (\<exists>t'. findUnique ''a'' (tasks (snd (schedulePublication example_env
              (example_store [example_task ''a'' (Some ''C'') (Some 1704279000000)])
              ''a'' (Some True)))) = Some t' \<and>
         publishAt t' = Some 1704279000000)"
proof -
  let ?t = "example_task ''a'' (Some ''C'') (Some 1704279000000)"
  have h1: "findUnique ''a'' (tasks (example_store [?t])) = Some ?t" by code_simp
  have h2: "publishAt ?t = Some 1704279000000" by code_simp
  show ?thesis
    by (rule conjI[OF h1 conjI[OF h2 explicit_publishAt_never_changed[OF h1 h2]]])
qed

text \<open>
  C7. For every existing task whose column is some \<open>C\<close>, after a successful call
  with \<open>removeFromKanban = true\<close> the task's persisted column is null, and with
  \<open>removeFromKanban = false\<close> or omitted it is still \<open>C\<close>. Nothing is assumed
  about \<open>publishAt\<close>, so the statement covers the explicit-time path and the
  slot-search path.
\<close>

theorem removeFromKanban_persisted_column:
  assumes "findUnique k (tasks s) = Some t" "columnId t = Some c"
    "schedulePublication e s k r = (Inr res, s')"
  shows "\<exists>t'. findUnique k (tasks s') = Some t' \<and>
              (r = Some True \<longrightarrow> columnId t' = None) \<and>
              (r = Some False \<or> r = None \<longrightarrow> columnId t' = Some c)"
proof (cases "publishAt t")
  case None
  from assms(1) None assms(3) obtain s1 d dat where
    dat: "dat = \<lparr> data_publishAt = Some (Some d),
             data_columnId = Some (if truthy r then None else columnId t) \<rparr>"
    and res: "res = apply_data dat (writeTime e) t"
    and s': "s' = s1\<lparr> tasks := replace_row k res (tasks s), taskUpdates := taskUpdates s @ [(k, dat)] \<rparr>"
    by (rule slot_success_cases)
  have "id_task res = k" using res findUnique_SomeD[OF assms(1)] by (simp add: id_task_apply_data)
  then have u: "findUnique k (tasks s') = Some res"
    using s' findUnique_replace_same[OF assms(1)] by simp
  have "columnId res = (if truthy r then None else Some c)"
    using res dat assms(2) by (simp add: columnId_apply_data_Some)
  then show ?thesis using u by (auto simp: truthy_def)
next
  case (Some p)
  show ?thesis
    using assms(1) Some
  proof (cases rule: explicit_cases[where e = e and r = r])
    case unauthenticated
    then show ?thesis using assms(3) by simp
  next
    case (keep s1)
    then have "s' = s1" using assms(3) by simp
    then have "findUnique k (tasks s') = Some t"
      using assms(1) createUser_Inr[OF keep(1)] by simp
    then show ?thesis using assms(2) keep(2) by (auto simp: truthy_def)
  next
    case (remove s1)
    let ?t' = "apply_data \<lparr> data_publishAt = None, data_columnId = Some None \<rparr> (writeTime e) t"
    have "id_task ?t' = k" using findUnique_SomeD[OF assms(1)] by (simp add: id_task_apply_data)
    then have "findUnique k (replace_row k ?t' (tasks s)) = Some ?t'"
      using findUnique_replace_same[OF assms(1)] by simp
    moreover have "columnId ?t' = None" by (simp add: columnId_apply_data_Some)
    moreover have "tasks s' = replace_row k ?t' (tasks s)"
    proof -
      have "tasks (snd (schedulePublication e s k r)) = replace_row k ?t' (tasks s)"
        by (simp add: remove(3))
      moreover have "snd (schedulePublication e s k r) = s'"
        by (simp add: assms(3))
      ultimately show ?thesis by simp
    qed
    ultimately show ?thesis using remove(2) by (auto simp: truthy_def)
  qed
qed

text \<open>The slot-search path with \<open>removeFromKanban = true\<close>, and the explicit-time
  path with \<open>removeFromKanban\<close> omitted.\<close>

theorem removeFromKanban_persisted_column_witness:
  "(findUnique ''a'' (tasks (example_store [example_task ''a'' (Some ''C'') None])) =
      Some (example_task ''a'' (Some ''C'') None) \<and>
    columnId (example_task ''a'' (Some ''C'') None) = Some ''C'' \<and>
    fst (schedulePublication example_env (example_store [example_task ''a'' (Some ''C'') None])
           ''a'' (Some True)) =
      Inr ((example_task ''a'' None (Some 1704088800000))\<lparr> updatedAt := 1704132000500 \<rparr>) \<and>
    (\<exists>t'. findUnique ''a'' (tasks (snd (schedulePublication example_env
              (example_store [example_task ''a'' (Some ''C'') None]) ''a'' (Some True)))) = Some t' \<and>
          columnId t' = None)) \<and>
   (findUnique ''a'' (tasks (example_store [example_task ''a'' (Some ''C'') (Some 1704279000000)])) =
      Some (example_task ''a'' (Some ''C'') (Some 1704279000000)) \<and>
    columnId (example_task ''a'' (Some ''C'') (Some 1704279000000)) = Some ''C'' \<and>
    fst (schedulePublication example_env
           (example_store [example_task ''a'' (Some ''C'') (Some 1704279000000)]) ''a'' None) =
      Inr (example_task ''a'' (Some ''C'') (Some 1704279000000)) \<and>
    (\<exists>t'. findUnique ''a'' (tasks (snd (schedulePublication example_env
              (example_store [example_task ''a'' (Some ''C'') (Some 1704279000000)]) ''a'' None))) = Some t' \<and>
          columnId t' = Some ''C''))"
proof -
  let ?t = "example_task ''a'' (Some ''C'') None"
  let ?r = "(example_task ''a'' None (Some 1704088800000))\<lparr> updatedAt := 1704132000500 \<rparr>"
  let ?u = "example_task ''a'' (Some ''C'') (Some 1704279000000)"
  have a1: "findUnique ''a'' (tasks (example_store [?t])) = Some ?t" by code_simp
  have a2: "columnId ?t = Some ''C''" by code_simp
  have a3: "fst (schedulePublication example_env (example_store [?t]) ''a'' (Some True)) = Inr ?r"
    by code_simp
  then have a3p: "schedulePublication example_env (example_store [?t]) ''a'' (Some True) =
      (Inr ?r, snd (schedulePublication example_env (example_store [?t]) ''a'' (Some True)))"
    by (simp add: prod_eq_iff)
  from removeFromKanban_persisted_column[OF a1 a2 a3p]
  have a4: "\<exists>t'. findUnique ''a'' (tasks (snd (schedulePublication example_env
              (example_store [?t]) ''a'' (Some True)))) = Some t' \<and> columnId t' = None"
    by blast
  have b1: "findUnique ''a'' (tasks (example_store [?u])) = Some ?u" by code_simp
  have b2: "columnId ?u = Some ''C''" by code_simp
  have b3: "fst (schedulePublication example_env (example_store [?u]) ''a'' None) = Inr ?u"
    by code_simp
  then have b3p: "schedulePublication example_env (example_store [?u]) ''a'' None =
      (Inr ?u, snd (schedulePublication example_env (example_store [?u]) ''a'' None))"
    by (simp add: prod_eq_iff)
  from removeFromKanban_persisted_column[OF b1 b2 b3p]
  have b4: "\<exists>t'. findUnique ''a'' (tasks (snd (schedulePublication example_env
              (example_store [?u]) ''a'' None))) = Some t' \<and> columnId t' = Some ''C''"
    by blast
  show ?thesis
    by (rule conjI[OF conjI[OF a1 conjI[OF a2 conjI[OF a3 a4]]] conjI[OF b1 conjI[OF b2 conjI[OF b3 b4]]]])
qed

text \<open>
  C8 (as the code has it). A successful call performs exactly one \<open>db.task.update\<close>
  when it assigns a slot or when \<open>removeFromKanban\<close> is true, and none when the task
  already has a \<open>publishAt\<close> and \<open>removeFromKanban\<close> is false or omitted; a failing
  call performs none and leaves the Task table as it was. In every case the rows other
  than the one with the given id are unchanged, and in every row all columns other than
  \<open>publishAt\<close>, \<open>columnId\<close> and \<open>updatedAt\<close> are unchanged.
\<close>

theorem updates_and_frame:
  assumes "schedulePublication e s k r = (res, s')"
  shows "(\<forall>err. res = Inl err \<longrightarrow> taskUpdates s' = taskUpdates s \<and> tasks s' = tasks s) \<and>
         (\<forall>t'. res = Inr t' \<longrightarrow>
            (\<exists>t. findUnique k (tasks s) = Some t \<and>
                 (publishAt t \<noteq> None \<and> \<not> truthy r \<longrightarrow>
                    taskUpdates s' = taskUpdates s \<and> tasks s' = tasks s) \<and>
                 (publishAt t = None \<or> truthy r \<longrightarrow>
                    (\<exists>dat. taskUpdates s' = taskUpdates s @ [(k, dat)])))) \<and>
         map otherFields (tasks s') = map otherFields (tasks s) \<and>
         filter (\<lambda>x. id_task x \<noteq> k) (tasks s') = filter (\<lambda>x. id_task x \<noteq> k) (tasks s)"
proof -
  have "fst (schedulePublication e s k r) = res" "snd (schedulePublication e s k r) = s'"
    by (simp_all add: assms)
  then show ?thesis using updates_and_frame_aux[of e s k r] by simp
qed

text \<open>A slot-search call on a store with a second row: one update is logged, the
  other row and the remaining columns of the target row stay as they were.\<close>

theorem updates_and_frame_witness:
  "schedulePublication example_env
      (example_store [example_task ''b'' None (Some 1704088800000), example_task ''a'' (Some ''C'') None])
      ''a'' (Some True) =
     (Inr ((example_task ''a'' None (Some 1704103200000))\<lparr> updatedAt := 1704132000500 \<rparr>),
      \<lparr> users = [\<lparr> id_user = ''u1'', role = ''EMPLOYEE'' \<rparr>],
        tasks = [example_task ''b'' None (Some 1704088800000),
                 (example_task ''a'' None (Some 1704103200000))\<lparr> updatedAt := 1704132000500 \<rparr>],
        taskUpdates = [(''a'', \<lparr> data_publishAt = Some (Some 1704103200000),
                                 data_columnId = Some None \<rparr>)] \<rparr>) \<and>
   (\<exists>dat. [(''a'', \<lparr> data_publishAt = Some (Some 1704103200000), data_columnId = Some None \<rparr>)] =
      taskUpdates (example_store [example_task ''b'' None (Some 1704088800000),
                                    example_task ''a'' (Some ''C'') None]) @ [(''a'', dat)]) \<and>
   map otherFields [example_task ''b'' None (Some 1704088800000),
                    (example_task ''a'' None (Some 1704103200000))\<lparr> updatedAt := 1704132000500 \<rparr>] =
   map otherFields (tasks (example_store [example_task ''b'' None (Some 1704088800000),
                                           example_task ''a'' (Some ''C'') None]))"
proof -
  let ?s = "example_store [example_task ''b'' None (Some 1704088800000), example_task ''a'' (Some ''C'') None]"
  let ?t' = "(example_task ''a'' None (Some 1704103200000))\<lparr> updatedAt := 1704132000500 \<rparr>"
  let ?s' = "\<lparr> users = [\<lparr> id_user = ''u1'', role = ''EMPLOYEE'' \<rparr>],
        tasks = [example_task ''b'' None (Some 1704088800000), ?t'],
        taskUpdates = [(''a'', \<lparr> data_publishAt = Some (Some 1704103200000),
                                 data_columnId = Some None \<rparr>)] \<rparr>"
  have h: "schedulePublication example_env ?s ''a'' (Some True) = (Inr ?t', ?s')" by code_simp
  have a: "findUnique ''a'' (tasks ?s) = Some (example_task ''a'' (Some ''C'') None)" by code_simp
  have p: "publishAt (example_task ''a'' (Some ''C'') None) = None" by code_simp
  note th = updates_and_frame[OF h]
  from th a p have c1: "\<exists>dat. taskUpdates ?s' = taskUpdates ?s @ [(''a'', dat)]" by auto
  from th have c2: "map otherFields (tasks ?s') = map otherFields (tasks ?s)" by blast
  from h c1 c2 show ?thesis by simp
qed

text \<open>C8 as stated fails twice: a call on a task with an explicit time and
  \<open>removeFromKanban\<close> omitted succeeds without any update, and an update changes the
  \<open>updatedAt\<close> column of the row it writes.\<close>

theorem one_update_counterexample:
  "fst (schedulePublication example_env
          (example_store [example_task ''a'' (Some ''C'') (Some 1704279000000)]) ''a'' None) =
     Inr (example_task ''a'' (Some ''C'') (Some 1704279000000)) \<and>
   length (taskUpdates (snd (schedulePublication example_env
          (example_store [example_task ''a'' (Some ''C'') (Some 1704279000000)]) ''a'' None))) \<noteq>
     length (taskUpdates (example_store [example_task ''a'' (Some ''C'') (Some 1704279000000)])) + 1 \<and>
   map updatedAt (tasks (snd (schedulePublication example_env
          (example_store [example_task ''a'' (Some ''C'') (Some 1704279000000)]) ''a'' (Some True)))) \<noteq>
     map updatedAt (tasks (example_store [example_task ''a'' (Some ''C'') (Some 1704279000000)]))"
  by code_simp

text \<open>
  C9. For some invocation instant and store state the slot search assigns a
  \<open>publishAt\<close> that precedes the instant the operation runs: there is a call on an
  unscheduled task after which the row stored under the task's id carries a \<open>publishAt\<close>
  earlier than the clock value the call read. More generally the scan begins with today's
  09:00 slot whatever the time of day: on a business day whose 09:00 slot is free an
  unscheduled task receives that slot, returned and persisted, and the slot lies in the
  past as soon as the local time is later than 09:00.
\<close>

theorem slot_may_precede_now:
  "(\<exists>e s k r t t' p.
      findUnique k (tasks s) = Some t \<and> publishAt t = None \<and>
      fst (schedulePublication e s k r) = Inr t' \<and>
      findUnique k (tasks (snd (schedulePublication e s k r))) = Some t' \<and>
      publishAt t' = Some p \<and> p < now e) \<and>
   (\<forall>e s k r t u.
      auth e = Some u \<longrightarrow> findUnique k (tasks s) = Some t \<longrightarrow> publishAt t = None \<longrightarrow>
      getDay (tz e) (now e) \<noteq> 0 \<longrightarrow> getDay (tz e) (now e) \<noteq> 6 \<longrightarrow>
      slotFree (tasks s) (setHours (tz e) 9 (now e)) \<longrightarrow>
      9 * msPerHour < (now e + tz e) mod msPerDay \<longrightarrow>
      (\<exists>t'. fst (schedulePublication e s k r) = Inr t' \<and>
            findUnique k (tasks (snd (schedulePublication e s k r))) = Some t' \<and>
            publishAt t' = Some (setHours (tz e) 9 (now e)) \<and>
            setHours (tz e) 9 (now e) < now e))"
proof (rule conjI)
  let ?s = "example_store [example_task ''a'' None None]"
  let ?t' = "(example_task ''a'' None (Some 1704088800000))\<lparr> updatedAt := 1704132000500 \<rparr>"
  have "findUnique ''a'' (tasks ?s) = Some (example_task ''a'' None None) \<and>
        publishAt (example_task ''a'' None None) = None \<and>
        fst (schedulePublication example_env ?s ''a'' None) = Inr ?t' \<and>
        findUnique ''a'' (tasks (snd (schedulePublication example_env ?s ''a'' None))) = Some ?t' \<and>
        publishAt ?t' = Some 1704088800000 \<and> 1704088800000 < now example_env"
    by code_simp
  then show "\<exists>e s k r t t' p.
      findUnique k (tasks s) = Some t \<and> publishAt t = None \<and>
      fst (schedulePublication e s k r) = Inr t' \<and>
      findUnique k (tasks (snd (schedulePublication e s k r))) = Some t' \<and>
      publishAt t' = Some p \<and> p < now e"
    by blast
next
  show "\<forall>e s k r t u.
      auth e = Some u \<longrightarrow> findUnique k (tasks s) = Some t \<longrightarrow> publishAt t = None \<longrightarrow>
      getDay (tz e) (now e) \<noteq> 0 \<longrightarrow> getDay (tz e) (now e) \<noteq> 6 \<longrightarrow>
      slotFree (tasks s) (setHours (tz e) 9 (now e)) \<longrightarrow>
      9 * msPerHour < (now e + tz e) mod msPerDay \<longrightarrow>
      (\<exists>t'. fst (schedulePublication e s k r) = Inr t' \<and>
            findUnique k (tasks (snd (schedulePublication e s k r))) = Some t' \<and>
            publishAt t' = Some (setHours (tz e) 9 (now e)) \<and>
            setHours (tz e) 9 (now e) < now e)"
  proof (intro allI impI)
    fix e :: env and s :: db and k r t u
    assume a: "auth e = Some u" and f: "findUnique k (tasks s) = Some t"
      and p: "publishAt t = None"
      and wd: "getDay (tz e) (now e) \<noteq> 0" "getDay (tz e) (now e) \<noteq> 6"
      and fr: "slotFree (tasks s) (setHours (tz e) 9 (now e))"
      and late: "9 * msPerHour < (now e + tz e) mod msPerDay"
    let ?t' = "apply_data \<lparr> data_publishAt = Some (Some (setHours (tz e) 9 (now e))),
             data_columnId = Some (if truthy r then None else columnId t) \<rparr> (writeTime e) t"
    from createUser_auth[OF a] obtain s1 where s1: "createUserIfNotExists e s = Inr s1"
      by blast
    note fs = first_slot_today[OF wd fr]
    have "publishAt ?t' = Some (setHours (tz e) 9 (now e))"
      by (simp add: publishAt_apply_data_Some)
    moreover have "setHours (tz e) 9 (now e) < now e"
      using late by (simp add: setHours_before_now)
    moreover have "id_task ?t' = k"
      using findUnique_SomeD[OF f] by (simp add: id_task_apply_data)
    then have "findUnique k (replace_row k ?t' (tasks s)) = Some ?t'"
      using findUnique_replace_same[OF f] by simp
    ultimately show "\<exists>t'. fst (schedulePublication e s k r) = Inr t' \<and>
            findUnique k (tasks (snd (schedulePublication e s k r))) = Some t' \<and>
            publishAt t' = Some (setHours (tz e) 9 (now e)) \<and>
            setHours (tz e) 9 (now e) < now e"
      by (simp add: path_slot[OF s1 f p fs refl])
  qed
qed

text \<open>Monday 1 January 2024, 21:00 local time: the task receives 09:00 of the same
  day, twelve hours in the past, and that is what the store holds afterwards.\<close>

theorem slot_may_precede_now_witness:
  "auth example_env = Some ''u1'' \<and>
   findUnique ''a'' (tasks (example_store [example_task ''a'' None None])) =
     Some (example_task ''a'' None None) \<and>
   publishAt (example_task ''a'' None None) = None \<and>
   getDay (tz example_env) (now example_env) \<noteq> 0 \<and>
   getDay (tz example_env) (now example_env) \<noteq> 6 \<and>
   slotFree (tasks (example_store [example_task ''a'' None None]))
     (setHours (tz example_env) 9 (now example_env)) \<and>
   9 * msPerHour < (now example_env + tz example_env) mod msPerDay \<and>
   (\<exists>t'. fst (schedulePublication example_env (example_store [example_task ''a'' None None])
                 ''a'' None) = Inr t' \<and>
         findUnique ''a'' (tasks (snd (schedulePublication example_env
                 (example_store [example_task ''a'' None None]) ''a'' None))) = Some t' \<and>
         publishAt t' = Some (setHours (tz example_env) 9 (now example_env)) \<and>
         setHours (tz example_env) 9 (now example_env) < now example_env)"
proof -
  let ?s = "example_store [example_task ''a'' None None]"
  have h1: "auth example_env = Some ''u1''" by code_simp
  have h2: "findUnique ''a'' (tasks ?s) = Some (example_task ''a'' None None)" by code_simp
  have h3: "publishAt (example_task ''a'' None None) = None" by code_simp
  have h4: "getDay (tz example_env) (now example_env) \<noteq> 0" by code_simp
  have h5: "getDay (tz example_env) (now example_env) \<noteq> 6" by code_simp
  have h6: "slotFree (tasks ?s) (setHours (tz example_env) 9 (now example_env))" by code_simp
  have h7: "9 * msPerHour < (now example_env + tz example_env) mod msPerDay" by code_simp
  note th = slot_may_precede_now[THEN conjunct2, rule_format]
  have c: "\<exists>t'. fst (schedulePublication example_env ?s ''a'' None) = Inr t' \<and>
         findUnique ''a'' (tasks (snd (schedulePublication example_env ?s ''a'' None))) = Some t' \<and>
         publishAt t' = Some (setHours (tz example_env) 9 (now example_env)) \<and>
         setHours (tz example_env) 9 (now example_env) < now example_env"
    by (rule th[OF h1 h2 h3 h4 h5 h6 h7])
  show ?thesis
    by (rule conjI[OF h1 conjI[OF h2 conjI[OF h3 conjI[OF h4 conjI[OF h5 conjI[OF h6 conjI[OF h7 c]]]]]]])
qed

text \<open>
  C10. A pre-set \<open>publishAt\<close> is preserved verbatim whatever instant it is and whatever
  the store holds: nothing is assumed about its weekday, its time of day or about other
  tasks carrying the same instant. The call never fails with \<open>NoAvailableSlot\<close>, the
  persisted \<open>publishAt\<close> is the pre-set one, and for an authenticated caller the call
  succeeds: the weekend, grid and collision rules belong to the slot search only.
\<close>

theorem explicit_publishAt_not_checked:
  assumes "findUnique k (tasks s) = Some t" "publishAt t = Some p"
  shows "(\<exists>t'. findUnique k (tasks (snd (schedulePublication e s k r))) = Some t' \<and>
               publishAt t' = Some p) \<and>
         fst (schedulePublication e s k r) \<noteq> Inl NoAvailableSlot \<and>
         (auth e \<noteq> None \<longrightarrow>
            (\<exists>res. fst (schedulePublication e s k r) = Inr res \<and> publishAt res = Some p))"
  using assms
proof (cases rule: explicit_cases[where e = e and r = r])
  case unauthenticated
  then show ?thesis using assms by simp
next
  case (keep s1)
  then show ?thesis using assms createUser_Inr[OF keep(1)] by simp
next
  case (remove s1)
  let ?t' = "apply_data \<lparr> data_publishAt = None, data_columnId = Some None \<rparr> (writeTime e) t"
  have "id_task ?t' = k" using findUnique_SomeD[OF assms(1)] by (simp add: id_task_apply_data)
  then have "findUnique k (replace_row k ?t' (tasks s)) = Some ?t'"
    using findUnique_replace_same[OF assms(1)] by simp
  moreover have "publishAt ?t' = Some p"
    using assms(2) by (simp add: publishAt_apply_data_None)
  ultimately show ?thesis using remove(3) assms(2) by simp
qed

text \<open>The pre-set instant is Saturday 6 January 2024, 10:30:15.123 local time, and a
  content-plan task already carries exactly that instant.\<close>

theorem explicit_publishAt_not_checked_witness:
  "findUnique ''a'' (tasks (example_store
       [example_task ''x'' None (Some 1704526215123),
        example_task ''a'' None (Some 1704526215123)])) =
     Some (example_task ''a'' None (Some 1704526215123)) \<and>
   publishAt (example_task ''a'' None (Some 1704526215123)) = Some 1704526215123 \<and>
   getDay (tz example_env) 1704526215123 = 6 \<and>
   (1704526215123 + tz example_env) mod msPerDay = 37815123 \<and>
   findFirst 1704526215123 (tasks (example_store
       [example_task ''x'' None (Some 1704526215123),
        example_task ''a'' None (Some 1704526215123)])) =
     Some (example_task ''x'' None (Some 1704526215123)) \<and>
   auth example_env \<noteq> None \<and>
   (\<exists>res. fst (schedulePublication example_env (example_store
       [example_task ''x'' None (Some 1704526215123),
        example_task ''a'' None (Some 1704526215123)]) ''a'' None) = Inr res \<and>
         publishAt res = Some 1704526215123)"
proof -
  let ?s = "example_store
       [example_task ''x'' None (Some 1704526215123),
        example_task ''a'' None (Some 1704526215123)]"
  let ?t = "example_task ''a'' None (Some 1704526215123)"
  have h1: "findUnique ''a'' (tasks ?s) = Some ?t" by code_simp
  have h2: "publishAt ?t = Some 1704526215123" by code_simp
  have w: "getDay (tz example_env) 1704526215123 = 6" by code_simp
  have g: "(1704526215123 + tz example_env) mod msPerDay = 37815123" by code_simp
  have o: "findFirst 1704526215123 (tasks ?s) = Some (example_task ''x'' None (Some 1704526215123))"
    by code_simp
  have a: "auth example_env \<noteq> None" by code_simp
  from explicit_publishAt_not_checked[OF h1 h2, of example_env None] a
  have c: "\<exists>res. fst (schedulePublication example_env ?s ''a'' None) = Inr res \<and>
         publishAt res = Some 1704526215123" by blast
  show ?thesis by (rule conjI[OF h1 conjI[OF h2 conjI[OF w conjI[OF g conjI[OF o conjI[OF a c]]]]]])
qed

end
